theory Spec2Isabelle
  imports Complex_Main "HOL-Library.Char_ord"
begin

section \<open>ProxyChooser (src/index.js): a shallow embedding\<close>

text \<open>
  The class \<^verbatim>\<open>ProxyChooser\<close> keeps three private fields (the proxy list, the options and
  the cache of tested proxies) and talks to three collaborators: \<^verbatim>\<open>Math.random\<close>,
  \<^verbatim>\<open>dns.lookup\<close> and the HTTP client. The fields become a record that every operation
  takes and returns; the collaborators become oracle functions over an abstract world
  \<open>'w\<close>, so that every theorem holds for every behaviour of the network. Exceptions
  (rejected promises) are values of the type \<open>error\<close>. Console output is not modelled.
  Candidates are strings of characters below 256; an instance is used by one caller at
  a time, as the specification requires.
\<close>

subsection \<open>JavaScript values and errors\<close>

text \<open>
  An option field holds any JavaScript value; only its \<^verbatim>\<open>typeof\<close> and, for the flags, its
  truthiness are inspected. Numbers are integers here (milliseconds).
\<close>

datatype jsval = JUndefined | JNull | JBool bool | JNum int | JStr string

datatype jstype = TUndefined | TObject | TBoolean | TNumber | TString

fun typeof :: "jsval \<Rightarrow> jstype" where
  "typeof JUndefined = TUndefined"
| "typeof JNull = TObject"
| "typeof (JBool b) = TBoolean"
| "typeof (JNum n) = TNumber"
| "typeof (JStr s) = TString"

fun truthy :: "jsval \<Rightarrow> bool" where
  "truthy JUndefined = False"
| "truthy JNull = False"
| "truthy (JBool b) = b"
| "truthy (JNum n) = (n \<noteq> 0)"
| "truthy (JStr s) = (s \<noteq> [])"

text \<open>
  One constructor per \<^verbatim>\<open>throw new Error(...)\<close> of the source, named after the spec's
  taxonomy; \<open>TypeError\<close> is the engine's own error for \<^verbatim>\<open>undefined.split\<close>, and
  \<open>Rethrown e\<close> is \<^verbatim>\<open>new Error(error)\<close>, whose message is the text of \<open>e\<close>.
\<close>

datatype error =
    InvalidOptions              \<comment> \<open>\<^verbatim>\<open>"Invalid options"\<close>\<close>
  | ProxyUndefined              \<comment> \<open>\<^verbatim>\<open>"Proxy cannot be undefined"\<close>\<close>
  | InvalidFormat string        \<comment> \<open>\<^verbatim>\<open>"Invalid proxy format: " + proxy\<close>\<close>
  | ResolutionFailure string    \<comment> \<open>\<^verbatim>\<open>"Failed to resolve IP address for <host>."\<close>\<close>
  | AllProxiesFailed            \<comment> \<open>\<^verbatim>\<open>"All proxies have been tested and failed, ..."\<close>\<close>
  | PingFailed                  \<comment> \<open>\<^verbatim>\<open>"Failed to get ping for <url> | Axios Error: ..."\<close>\<close>
  | TypeError
  | Rethrown error

subsection \<open>Regular expressions\<close>

text \<open>
  The three patterns of the source are regular expressions with a start anchor, end
  anchors and one negative lookahead. A pattern is a value of \<open>regex\<close>; \<open>rests r s\<close> lists
  the remainders of \<open>s\<close> after every way of matching \<open>r\<close> at its start, so the anchors and
  the lookahead are tests on the remainder. \<open>Many1 p\<close> is \<^verbatim>\<open>[...]+\<close> for a character class,
  \<open>Rep n r\<close> is \<^verbatim>\<open>(r){n}\<close>, \<open>Eos\<close> is \<^verbatim>\<open>$\<close> (no \<^verbatim>\<open>m\<close> flag: the end of the input only) and
  \<open>NotAhead r\<close> is \<^verbatim>\<open>(?!r)\<close>.
\<close>

datatype regex =
    Chr char
  | Cls "char \<Rightarrow> bool"
  | Many1 "char \<Rightarrow> bool"
  | Eps
  | Seq regex regex
  | Alt regex regex
  | Rep nat regex
  | Eos
  | NotAhead regex

fun many :: "(char \<Rightarrow> bool) \<Rightarrow> string \<Rightarrow> string list" where
  "many p [] = [[]]"
| "many p (c # cs) = (if p c then many p cs @ [c # cs] else [c # cs])"

fun many1 :: "(char \<Rightarrow> bool) \<Rightarrow> string \<Rightarrow> string list" where
  "many1 p [] = []"
| "many1 p (c # cs) = (if p c then many p cs else [])"

primrec iter :: "nat \<Rightarrow> (string \<Rightarrow> string list) \<Rightarrow> string \<Rightarrow> string list" where
  "iter 0 f s = [s]"
| "iter (Suc n) f s = concat (map (iter n f) (f s))"

primrec rests :: "regex \<Rightarrow> string \<Rightarrow> string list" where
  "rests (Chr a) s = (case s of [] \<Rightarrow> [] | c # cs \<Rightarrow> if c = a then [cs] else [])"
| "rests (Cls p) s = (case s of [] \<Rightarrow> [] | c # cs \<Rightarrow> if p c then [cs] else [])"
| "rests (Many1 p) s = many1 p s"
| "rests Eps s = [s]"
| "rests (Seq a b) s = concat (map (rests b) (rests a s))"
| "rests (Alt a b) s = rests a s @ rests b s"
| "rests (Rep n a) s = iter n (rests a) s"
| "rests Eos s = (if s = [] then [s] else [])"
| "rests (NotAhead a) s = (if rests a s = [] then [s] else [])"

text \<open>
  \<^verbatim>\<open>/^r/.test(s)\<close>: with the start anchor and no \<^verbatim>\<open>m\<close> flag the only match attempt is the
  one at index 0.
\<close>

definition regex_test :: "regex \<Rightarrow> string \<Rightarrow> bool" where
  "regex_test r s = (rests r s \<noteq> [])"

text \<open>
  The character classes. \<^verbatim>\<open>\d\<close> is \<^verbatim>\<open>[0-9]\<close>, \<^verbatim>\<open>\w\<close> is \<^verbatim>\<open>[A-Za-z0-9_]\<close>, and \<^verbatim>\<open>\s\<close> is
  the white space of ECMAScript as far as \<open>char\<close> reaches (code units below 256: TAB, LF,
  VT, FF, CR, SPACE and NBSP).
\<close>

definition in_range :: "char \<Rightarrow> char \<Rightarrow> char \<Rightarrow> bool" where
  "in_range lo hi c = (lo \<le> c \<and> c \<le> hi)"

definition digit :: "char \<Rightarrow> bool" where
  "digit c = in_range CHR ''0'' CHR ''9'' c"

definition word_char :: "char \<Rightarrow> bool" where
  "word_char c =
     (in_range CHR ''A'' CHR ''Z'' c \<or> in_range CHR ''a'' CHR ''z'' c \<or> digit c \<or> c = CHR ''_'')"

definition space_char :: "char \<Rightarrow> bool" where
  "space_char c = (of_char c \<in> {9, 10, 11, 12, 13, 32, 160 :: nat})"

text \<open>\<^verbatim>\<open>const directPattern = /^[\w.]+:\d+$/;\<close>\<close>

definition directPattern :: regex where
  "directPattern =
     Seq (Many1 (\<lambda>c. word_char c \<or> c = CHR ''.''))
    (Seq (Chr CHR '':'')
    (Seq (Many1 digit)
         Eos))"

text \<open>\<^verbatim>\<open>const authPattern = /^([^:@]+):([^:@]+)@([^\s@:]+):(\d+)$/\<close>\<close>

definition authPattern :: regex where
  "authPattern =
     Seq (Many1 (\<lambda>c. c \<noteq> CHR '':'' \<and> c \<noteq> CHR ''@''))
    (Seq (Chr CHR '':'')
    (Seq (Many1 (\<lambda>c. c \<noteq> CHR '':'' \<and> c \<noteq> CHR ''@''))
    (Seq (Chr CHR ''@'')
    (Seq (Many1 (\<lambda>c. \<not> space_char c \<and> c \<noteq> CHR ''@'' \<and> c \<noteq> CHR '':''))
    (Seq (Chr CHR '':'')
    (Seq (Many1 digit)
         Eos))))))"

text \<open>\<^verbatim>\<open>const hasNumber = /^((25[0-5]|(2[0-4]|1\d|[1-9]|)\d)(\.(?!$)|$)){4}$/;\<close>\<close>

definition octet :: regex where
  "octet =
     Alt (Seq (Chr CHR ''2'') (Seq (Chr CHR ''5'') (Cls (in_range CHR ''0'' CHR ''5''))))
         (Seq (Alt (Seq (Chr CHR ''2'') (Cls (in_range CHR ''0'' CHR ''4'')))
              (Alt (Seq (Chr CHR ''1'') (Cls digit))
              (Alt (Cls (in_range CHR ''1'' CHR ''9''))
                   Eps)))
              (Cls digit))"

definition hasNumber :: regex where
  "hasNumber =
     Seq (Rep 4 (Seq octet (Alt (Seq (Chr CHR ''.'') (NotAhead Eos)) Eos)))
         Eos"

subsection \<open>Strings and arrays\<close>

text \<open>
  \<^verbatim>\<open>s.split(sep)\<close> for a one-character separator: the first piece, which always exists,
  and the pieces after it. A destructuring \<^verbatim>\<open>[a, b] = s.split(sep)\<close> takes the first piece
  and the head of the rest, \<^verbatim>\<open>undefined\<close> when there is none; a template string prints
  \<^verbatim>\<open>undefined\<close> as the word.
\<close>

fun js_split :: "char \<Rightarrow> string \<Rightarrow> string \<times> string list" where
  "js_split sep [] = ([], [])"
| "js_split sep (c # cs) =
     (if c = sep then ([], fst (js_split sep cs) # snd (js_split sep cs))
      else (c # fst (js_split sep cs), snd (js_split sep cs)))"

definition second :: "'a list \<Rightarrow> 'a option" where
  "second rest = (case rest of [] \<Rightarrow> None | x # _ \<Rightarrow> Some x)"

definition template :: "string option \<Rightarrow> string" where
  "template v = (case v of None \<Rightarrow> ''undefined'' | Some s \<Rightarrow> s)"

text \<open>\<^verbatim>\<open>xs[i]\<close> for an integer index: \<^verbatim>\<open>undefined\<close> outside the array.\<close>

definition js_index :: "'a list \<Rightarrow> int \<Rightarrow> 'a option" where
  "js_index xs i = (if 0 \<le> i \<and> i < int (length xs) then Some (xs ! nat i) else None)"

subsection \<open>The Address Normalizer: \<^verbatim>\<open>proxyType\<close> and \<^verbatim>\<open>convertProxy\<close>\<close>

datatype ptype = Direct | Auth | Invalid

text \<open>
  The argument is \<open>None\<close> for \<^verbatim>\<open>undefined\<close>; \<^verbatim>\<open>!proxy\<close> also holds of the empty string.
\<close>

definition falsy :: "string option \<Rightarrow> bool" where
  "falsy proxy = (case proxy of None \<Rightarrow> True | Some p \<Rightarrow> p = [])"

definition proxyType :: "string option \<Rightarrow> error + ptype" where
  "proxyType proxy =
     (if falsy proxy then Inl ProxyUndefined
      else if regex_test directPattern (template proxy) then Inr Direct
      else if regex_test authPattern (template proxy) then Inr Auth
      else Inr Invalid)"

text \<open>
  The collaborators. Each oracle takes the world and returns its answer with the next
  world: \<open>randomTimes w n\<close> is the number that \<^verbatim>\<open>Math.random() * n\<close> evaluates to, for the
  length \<open>n\<close> of an array: the random number and the rounding of the product in double
  arithmetic are the platform's, and the caller floors the result (that it lies in
  [0, n) is a hypothesis wherever a property needs it);
  \<open>dnsLookup\<close> is \<^verbatim>\<open>dns.lookup(host)\<close>, the address or \<open>None\<close> when the promise
  rejects; \<open>proxiedGet\<close> is the request of \<^verbatim>\<open>testProxy\<close> (URL, proxy, timeout) and
  \<open>directGet\<close> the one of \<^verbatim>\<open>getPing\<close>, the elapsed milliseconds or \<open>None\<close> when axios throws.
\<close>

datatype outcome =
    Completed int   \<comment> \<open>the request resolved; \<^verbatim>\<open>endTime - startTime\<close>\<close>
  | Rejected        \<comment> \<open>axios (or an agent constructor) threw\<close>
  | TimedOut        \<comment> \<open>\<^verbatim>\<open>pT.timeout\<close> threw its \<^verbatim>\<open>TimeoutError\<close>\<close>

record 'w env =
  randomTimes :: "'w \<Rightarrow> nat \<Rightarrow> real \<times> 'w"
  dnsLookup :: "'w \<Rightarrow> string \<Rightarrow> string option \<times> 'w"
  proxiedGet :: "'w \<Rightarrow> jsval \<Rightarrow> string \<Rightarrow> jsval \<Rightarrow> outcome \<times> 'w"
  directGet :: "'w \<Rightarrow> jsval \<Rightarrow> int option \<times> 'w"

text \<open>
  Lines 160 to 172 of \<^verbatim>\<open>convertProxy\<close>: the four variables after the split, or the error.
\<close>

record parts =
  proxyAuth :: "string option"
  proxyPassword :: "string option"
  proxyHost :: string
  proxyPort :: "string option"

definition splitProxy :: "string option \<Rightarrow> error + parts" where
  "splitProxy proxy =
     (case proxyType proxy of
        Inl e \<Rightarrow> Inl e
      | Inr Direct \<Rightarrow>
          (let hp = js_split CHR '':'' (template proxy)
           in Inr \<lparr>proxyAuth = None, proxyPassword = None,
                   proxyHost = fst hp, proxyPort = second (snd hp)\<rparr>)
      | Inr Auth \<Rightarrow>
          (let ah = js_split CHR ''@'' (template proxy)
           in case second (snd ah) of
                None \<Rightarrow> Inl TypeError
              | Some h \<Rightarrow>
                  (let up = js_split CHR '':'' (fst ah); hp = js_split CHR '':'' h
                   in Inr \<lparr>proxyAuth = Some (fst up), proxyPassword = second (snd up),
                           proxyHost = fst hp, proxyPort = second (snd hp)\<rparr>))
      | Inr Invalid \<Rightarrow> Inl (InvalidFormat (template proxy)))"

definition convertProxy :: "'w env \<Rightarrow> 'w \<Rightarrow> string option \<Rightarrow> (error + string) \<times> 'w" where
  "convertProxy env w proxy =
     (if falsy proxy then (Inl ProxyUndefined, w)
      else case splitProxy proxy of
        Inl e \<Rightarrow> (Inl e, w)
      | Inr ps \<Rightarrow>
          (let resolved =
                 (if \<not> regex_test hasNumber (proxyHost ps)
                  then (case dnsLookup env w (proxyHost ps) of
                          (None, w') \<Rightarrow> (Inl (ResolutionFailure (proxyHost ps)), w')
                        | (Some address, w') \<Rightarrow> (Inr address, w'))
                  else (Inr (proxyHost ps), w))
           in case resolved of
                (Inl e, w') \<Rightarrow> (Inl e, w')
              | (Inr host, w') \<Rightarrow>
                  (if proxyType proxy = Inr Auth
                   then (Inr (template (proxyAuth ps) @ '':'' @ template (proxyPassword ps)
                              @ ''@'' @ host @ '':'' @ template (proxyPort ps)), w')
                   else (Inr (host @ '':'' @ template (proxyPort ps)), w'))))"

subsection \<open>The State Holder\<close>

text \<open>
  The options object: a field that is missing is \<open>JUndefined\<close>. The constructor replaces
  a missing options argument by the full default object, so the branch of
  \<^verbatim>\<open>validateOptions\<close> for a falsy \<^verbatim>\<open>this.#options\<close> is never taken and is left out.
\<close>

record options =
  verbose :: jsval
  maxTimeout :: jsval
  verboseIdentifier :: jsval
  pingUrl :: jsval
  forceRetry :: jsval

text \<open>
  The instance with the world it runs in. \<open>probes\<close> is a ghost field, absent from the
  source: the history of the proxied requests that \<^verbatim>\<open>testProxy\<close> issued. An entry keeps
  the argument \<^verbatim>\<open>testProxy\<close> was called with, the address the request went through, the
  cache as it was at that moment, and the answer of \<^verbatim>\<open>testProxy\<close>.
\<close>

record probe =
  asked :: string
  via :: string
  cached :: "string list"
  working :: bool

record 'w chooser =
  proxyList :: "string list"
  options :: options
  cache :: "string list"
  world :: 'w
  probes :: "probe list"

definition constructor_defaults :: options where
  "constructor_defaults =
     \<lparr>verbose = JBool False, maxTimeout = JNum 1000,
      verboseIdentifier = JStr ''[proxyChooser]'',
      pingUrl = JStr ''http://myexternalip.com/raw'', forceRetry = JBool False\<rparr>"

definition construct :: "string list option \<Rightarrow> options option \<Rightarrow> 'w \<Rightarrow> 'w chooser" where
  "construct list opts w =
     \<lparr>proxyList = (case list of None \<Rightarrow> [] | Some l \<Rightarrow> l),
      options = (case opts of None \<Rightarrow> constructor_defaults | Some o' \<Rightarrow> o'),
      cache = [], world = w, probes = []\<rparr>"

text \<open>Lines 68 to 82: the five defaulting assignments, in the order of the source.\<close>

definition default_verbose :: "options \<Rightarrow> options" where
  "default_verbose opts =
     (if typeof (verbose opts) = TUndefined then opts\<lparr>verbose := JBool False\<rparr> else opts)"

definition default_maxTimeout :: "options \<Rightarrow> options" where
  "default_maxTimeout opts =
     (if typeof (maxTimeout opts) = TUndefined then opts\<lparr>maxTimeout := JNum 1000\<rparr> else opts)"

definition default_verboseIdentifier :: "options \<Rightarrow> options" where
  "default_verboseIdentifier opts =
     (if typeof (verboseIdentifier opts) = TUndefined
      then opts\<lparr>verboseIdentifier := JStr ''[proxyChooser]''\<rparr> else opts)"

definition default_pingUrl :: "options \<Rightarrow> options" where
  "default_pingUrl opts =
     (if typeof (pingUrl opts) = TUndefined
      then opts\<lparr>pingUrl := JStr ''http://myexternalip.com/raw''\<rparr> else opts)"

definition default_forceRetry :: "options \<Rightarrow> options" where
  "default_forceRetry opts =
     (if typeof (forceRetry opts) = TUndefined then opts\<lparr>forceRetry := JBool False\<rparr> else opts)"

definition fill_defaults :: "options \<Rightarrow> options" where
  "fill_defaults opts =
     default_forceRetry (default_pingUrl (default_verboseIdentifier
       (default_maxTimeout (default_verbose opts))))"

text \<open>Lines 84 to 92: the condition under which \<^verbatim>\<open>"Invalid options"\<close> is thrown.\<close>

definition ill_typed :: "options \<Rightarrow> bool" where
  "ill_typed opts =
     (typeof (maxTimeout opts) \<noteq> TNumber \<or>
      typeof (verbose opts) \<noteq> TBoolean \<or>
      typeof (verboseIdentifier opts) \<noteq> TString \<or>
      typeof (pingUrl opts) \<noteq> TString \<or>
      typeof (forceRetry opts) \<noteq> TBoolean)"

definition validateOptions :: "'w chooser \<Rightarrow> (error + bool) \<times> 'w chooser" where
  "validateOptions s =
     (let s' = s\<lparr>options := fill_defaults (options s)\<rparr>
      in if ill_typed (options s') then (Inl InvalidOptions, s') else (Inr True, s'))"

definition resetList :: "'w chooser \<Rightarrow> bool \<times> 'w chooser" where
  "resetList s =
     (if length (proxyList s) \<noteq> 0 then (True, s\<lparr>proxyList := []\<rparr>) else (False, s))"

text \<open>
  The argument of \<^verbatim>\<open>addProxies\<close>: \<^verbatim>\<open>undefined\<close>, a value that is not an array, or an array
  of candidates.
\<close>

datatype proxies_arg = Missing | NotArray | Array "string list"

definition addProxies :: "'w chooser \<Rightarrow> proxies_arg \<Rightarrow> (error + bool) \<times> 'w chooser" where
  "addProxies s proxies =
     (case validateOptions s of
        (Inl e, s') \<Rightarrow> (Inl e, s')
      | (Inr _, s') \<Rightarrow>
          (case proxies of
             Missing \<Rightarrow> (Inr False, s')
           | NotArray \<Rightarrow> (Inr False, s')
           | Array ps \<Rightarrow>
               if length ps = 0 then (Inr False, s')
               else (Inr True, s'\<lparr>proxyList := proxyList s' @ ps\<rparr>)))"

definition resetCache :: "'w chooser \<Rightarrow> bool \<times> 'w chooser" where
  "resetCache s = (True, s\<lparr>cache := []\<rparr>)"

subsection \<open>The Connectivity Prober\<close>

definition getPing :: "'w env \<Rightarrow> 'w chooser \<Rightarrow> (error + int) \<times> 'w chooser" where
  "getPing env s =
     (case validateOptions s of
        (Inl e, s') \<Rightarrow> (Inl e, s')
      | (Inr _, s') \<Rightarrow>
          (case directGet env (world s') (pingUrl (options s')) of
             (None, w') \<Rightarrow> (Inl PingFailed, s'\<lparr>world := w'\<rparr>)
           | (Some elapsed, w') \<Rightarrow> (Inr elapsed, s'\<lparr>world := w'\<rparr>)))"

text \<open>
  \<^verbatim>\<open>(endTime - startTime) > this.#options.maxTimeout\<close>. After \<^verbatim>\<open>validateOptions\<close> the
  right-hand side is a number, so the second equation is never used by \<^verbatim>\<open>testProxy\<close>.
\<close>

fun exceeds :: "int \<Rightarrow> jsval \<Rightarrow> bool" where
  "exceeds d (JNum t) = (d > t)"
| "exceeds d _ = False"

text \<open>
  The \<^verbatim>\<open>try\<close> block of \<^verbatim>\<open>testProxy\<close>, lines 238 to 280: every exception raised inside it
  ends in \<^verbatim>\<open>return false\<close>.
\<close>

definition within_budget :: "outcome \<Rightarrow> jsval \<Rightarrow> bool" where
  "within_budget r t =
     (case r of
        Completed d \<Rightarrow> \<not> exceeds d t
      | Rejected \<Rightarrow> False
      | TimedOut \<Rightarrow> False)"

definition testProxy :: "'w env \<Rightarrow> 'w chooser \<Rightarrow> string option \<Rightarrow> (error + bool) \<times> 'w chooser" where
  "testProxy env s proxy =
     (case validateOptions s of
        (Inl e, s') \<Rightarrow> (Inl e, s')
      | (Inr _, s') \<Rightarrow>
          if falsy proxy then (Inl ProxyUndefined, s')
          else (case convertProxy env (world s') proxy of
                  (Inl e, w') \<Rightarrow> (Inl e, s'\<lparr>world := w'\<rparr>)
                | (Inr p, w') \<Rightarrow>
                    (case proxiedGet env w' (pingUrl (options s')) p (maxTimeout (options s')) of
                       (r, w'') \<Rightarrow>
                         (Inr (within_budget r (maxTimeout (options s'))),
                          s'\<lparr>world := w'',
                             probes := probes s' @
                               [\<lparr>asked = template proxy, via = p, cached = cache s',
                                 working = within_budget r (maxTimeout (options s'))\<rparr>]\<rparr>))))"

subsection \<open>The Selection Engine\<close>

text \<open>
  What one run of the \<^verbatim>\<open>try\<close> block of \<^verbatim>\<open>getProxy\<close> (lines 299 to 323) ends in:
  \<^verbatim>\<open>return proxy\<close>, the tail call \<^verbatim>\<open>return this.getProxy()\<close> of line 322, or an exception
  for the \<^verbatim>\<open>catch\<close> block. The promise of the tail call is returned without \<^verbatim>\<open>await\<close>, so
  its rejection is not caught by the \<^verbatim>\<open>catch\<close> of the caller.
\<close>

datatype step = Return string | Again | Throw error

text \<open>Line 299: the candidates that are not, as raw strings, elements of the cache.\<close>

definition remaining :: "'w chooser \<Rightarrow> string list" where
  "remaining s = filter (\<lambda>cproxy. cproxy \<notin> set (cache s)) (proxyList s)"

text \<open>
  Line 302: \<^verbatim>\<open>proxyList[Math.floor(x)]\<close>, where \<open>x\<close> is the product
  \<^verbatim>\<open>Math.random() * proxyList.length\<close>.
\<close>

definition draw :: "real \<Rightarrow> string list \<Rightarrow> string option" where
  "draw x xs = js_index xs \<lfloor>x\<rfloor>"

text \<open>Lines 303 to 309: the cache insertion, or the exhaustion error.\<close>

definition mark :: "'w chooser \<Rightarrow> string \<Rightarrow> error + 'w chooser" where
  "mark s proxy =
     (if proxy \<notin> set (cache s) then Inr (s\<lparr>cache := cache s @ [proxy]\<rparr>)
      else if length (cache s) = length (proxyList s) then Inl AllProxiesFailed
      else Inr s)"

definition getProxy_try :: "'w env \<Rightarrow> 'w chooser \<Rightarrow> step \<times> 'w chooser" where
  "getProxy_try env s =
     (case randomTimes env (world s) (length (remaining s)) of
        (x, w1) \<Rightarrow>
          (case convertProxy env w1 (draw x (remaining s)) of
             (Inl e, w2) \<Rightarrow> (Throw e, s\<lparr>world := w2\<rparr>)
           | (Inr proxy, w2) \<Rightarrow>
               (case mark (s\<lparr>world := w2\<rparr>) proxy of
                  Inl e \<Rightarrow> (Throw e, s\<lparr>world := w2\<rparr>)
                | Inr s2 \<Rightarrow>
                    (case testProxy env s2 (Some proxy) of
                       (Inl e, s3) \<Rightarrow> (Throw e, s3)
                     | (Inr workingProxy, s3) \<Rightarrow>
                         if workingProxy then (Return proxy, s3) else (Again, s3)))))"

text \<open>
  \<^verbatim>\<open>getProxy\<close> calls itself, without bound when \<^verbatim>\<open>forceRetry\<close> is set; the first argument
  bounds the depth of the calls, and \<open>None\<close> is the answer of a run that needs more.
\<close>

fun getProxy :: "nat \<Rightarrow> 'w env \<Rightarrow> 'w chooser \<Rightarrow> (error + string) option \<times> 'w chooser" where
  "getProxy 0 env s = (None, s)"
| "getProxy (Suc n) env s =
     (case validateOptions s of
        (Inl e, s0) \<Rightarrow> (Some (Inl e), s0)
      | (Inr _, s0) \<Rightarrow>
          (case getProxy_try env s0 of
             (Return proxy, s1) \<Rightarrow> (Some (Inr proxy), s1)
           | (Again, s1) \<Rightarrow> getProxy n env s1
           | (Throw e, s1) \<Rightarrow>
               if truthy (forceRetry (options s1))
               then getProxy n env (snd (resetCache s1))
               else (Some (Inl (Rethrown e)), s1)))"

subsection \<open>The patterns in the spec's words\<close>

text \<open>
  The two surface forms as the specification describes them: \<^verbatim>\<open>host:port\<close> with a host of
  word characters and dots and a port of digits, and \<^verbatim>\<open>user:pass@host:port\<close> with user and
  password free of \<^verbatim>\<open>:\<close> and \<^verbatim>\<open>@\<close>, a host free of white space, \<^verbatim>\<open>:\<close> and \<^verbatim>\<open>@\<close>, and a port
  of digits; every part is non-empty and the form covers the whole string. They are
  compared with the patterns of the source below.
\<close>

definition direct_form :: "string \<Rightarrow> bool" where
  "direct_form s =
     (\<exists>host port. s = host @ CHR '':'' # port \<and>
        host \<noteq> [] \<and> (\<forall>c\<in>set host. word_char c \<or> c = CHR ''.'') \<and>
        port \<noteq> [] \<and> (\<forall>c\<in>set port. digit c))"

definition auth_form :: "string \<Rightarrow> bool" where
  "auth_form s =
     (\<exists>user pass host port. s = user @ CHR '':'' # pass @ CHR ''@'' # host @ CHR '':'' # port \<and>
        user \<noteq> [] \<and> (\<forall>c\<in>set user. c \<noteq> CHR '':'' \<and> c \<noteq> CHR ''@'') \<and>
        pass \<noteq> [] \<and> (\<forall>c\<in>set pass. c \<noteq> CHR '':'' \<and> c \<noteq> CHR ''@'') \<and>
        host \<noteq> [] \<and> (\<forall>c\<in>set host. \<not> space_char c \<and> c \<noteq> CHR ''@'' \<and> c \<noteq> CHR '':'') \<and>
        port \<noteq> [] \<and> (\<forall>c\<in>set port. digit c))"

text \<open>
  A well-formed candidate whose host passes the test of line 175, so that
  \<^verbatim>\<open>convertProxy\<close> asks no resolver; and a candidate for which it asks none because it
  is either of that kind or not well-formed at all.
\<close>

definition literal_host :: "string \<Rightarrow> bool" where
  "literal_host c =
     (case splitProxy (Some c) of
        Inl e \<Rightarrow> False
      | Inr ps \<Rightarrow> regex_test hasNumber (proxyHost ps))"

definition needs_no_lookup :: "string \<Rightarrow> bool" where
  "needs_no_lookup c =
     (case splitProxy (Some c) of
        Inl e \<Rightarrow> True
      | Inr ps \<Rightarrow> regex_test hasNumber (proxyHost ps))"

subsection \<open>Valid configurations\<close>

text \<open>
  A field is well typed when it is missing or has the \<^verbatim>\<open>typeof\<close> that the documentation of
  the options gives it; \<open>validated s\<close> is the state that \<^verbatim>\<open>validateOptions\<close> leaves.
\<close>

definition well_typed :: "jstype \<Rightarrow> jsval \<Rightarrow> bool" where
  "well_typed t v = (typeof v = TUndefined \<or> typeof v = t)"

definition valid_options :: "options \<Rightarrow> bool" where
  "valid_options opts =
     (well_typed TBoolean (verbose opts) \<and> well_typed TNumber (maxTimeout opts) \<and>
      well_typed TString (verboseIdentifier opts) \<and> well_typed TString (pingUrl opts) \<and>
      well_typed TBoolean (forceRetry opts))"

definition validated :: "'w chooser \<Rightarrow> 'w chooser" where
  "validated s = s\<lparr>options := fill_defaults (options s)\<rparr>"

subsection \<open>Concrete instances\<close>

text \<open>
  Worlds that count the calls of their oracles. In \<open>busy_env\<close> every oracle answers and
  ticks: the resolver knows one address, requests are refused. In \<open>stubborn_env\<close> only
  \<^verbatim>\<open>Math.random\<close> ticks: it returns 0 three times and 0.5 from then on (the products
  \<open>0 * n\<close> and \<open>0.5 * n\<close> are exact in double arithmetic), the resolver
  knows \<^verbatim>\<open>hostA\<close> and \<^verbatim>\<open>hostB\<close>, and requests are refused. In \<open>quick_env\<close> requests
  complete after 5 ms.
\<close>

definition busy_env :: "nat env" where
  "busy_env =
     \<lparr>randomTimes = (\<lambda>w n. (0, Suc w)),
      dnsLookup = (\<lambda>w h. (Some ''9.9.9.9'', Suc w)),
      proxiedGet = (\<lambda>w u p t. (Rejected, Suc w)),
      directGet = (\<lambda>w u. (None, Suc w))\<rparr>"

definition resolver :: "string \<Rightarrow> string option" where
  "resolver h =
     (if h = ''hostA'' then Some ''10.0.0.1''
      else if h = ''hostB'' then Some ''10.0.0.2'' else None)"

definition stubborn_env :: "nat env" where
  "stubborn_env =
     \<lparr>randomTimes = (\<lambda>w n. (if w < 3 then 0 else real n / 2, Suc w)),
      dnsLookup = (\<lambda>w h. (resolver h, w)),
      proxiedGet = (\<lambda>w u p t. (Rejected, w)),
      directGet = (\<lambda>w u. (None, w))\<rparr>"

definition quick_env :: "nat env" where
  "quick_env =
     \<lparr>randomTimes = (\<lambda>w n. (0, Suc w)),
      dnsLookup = (\<lambda>w h. (resolver h, w)),
      proxiedGet = (\<lambda>w u p t. (Completed 5, w)),
      directGet = (\<lambda>w u. (Some 5, w))\<rparr>"

text \<open>
  Instances as the constructor builds them: two candidates with literal hosts, with
  \<^verbatim>\<open>forceRetry\<close> false and true, two with host names, one instance whose options hold a
  string where the timeout should be, and one whose timeout is a negative number and
  whose reference URL is no URL; and an instance later in its life, the cache filled by
  an earlier call of \<^verbatim>\<open>getProxy\<close>.
\<close>

definition two_literals :: "nat chooser" where
  "two_literals = construct (Some [''10.0.0.1:80'', ''10.0.0.2:80'']) None 0"

definition two_hosts :: "nat chooser" where
  "two_hosts = construct (Some [''hostA:80'', ''hostB:80'']) None 0"

definition exhausted_host :: "bool \<Rightarrow> nat chooser" where
  "exhausted_host retry =
     (construct (Some [''hostA:80''])
        (Some (constructor_defaults\<lparr>forceRetry := JBool retry\<rparr>)) 0)
       \<lparr>cache := [''10.0.0.1:80'']\<rparr>"

definition two_literals_retrying :: "nat chooser" where
  "two_literals_retrying =
     construct (Some [''10.0.0.1:80'', ''10.0.0.2:80''])
       (Some (constructor_defaults\<lparr>forceRetry := JBool True\<rparr>)) 0"

definition lax_configured :: "nat chooser" where
  "lax_configured =
     construct (Some [''10.0.0.1:80''])
       (Some (constructor_defaults\<lparr>maxTimeout := JNum (- 5), pingUrl := JStr ''not a url''\<rparr>)) 0"

definition ill_configured :: "nat chooser" where
  "ill_configured =
     construct (Some [''10.0.0.1:80''])
       (Some \<lparr>verbose = JUndefined, maxTimeout = JStr ''1000'', verboseIdentifier = JUndefined,
              pingUrl = JUndefined, forceRetry = JUndefined\<rparr>) 0"

section \<open>Properties\<close>

subsection \<open>What the patterns match\<close>

lemma many_iff: "r \<in> set (many p s) \<longleftrightarrow> (\<exists>pre. s = pre @ r \<and> (\<forall>c\<in>set pre. p c))"
proof (induction s)
  case Nil
  then show ?case by auto
next
  case (Cons a s)
  show ?case
  proof (cases "p a")
    case True
    have "(\<exists>pre. a # s = pre @ r \<and> (\<forall>c\<in>set pre. p c)) \<longleftrightarrow>
          (r = a # s \<or> (\<exists>pre. s = pre @ r \<and> (\<forall>c\<in>set pre. p c)))"
      using True by (auto simp: Cons_eq_append_conv)
    with True Cons show ?thesis by auto
  next
    case False
    have "(\<exists>pre. a # s = pre @ r \<and> (\<forall>c\<in>set pre. p c)) \<longleftrightarrow> r = a # s"
      using False by (auto simp: Cons_eq_append_conv)
    with False show ?thesis by auto
  qed
qed

lemma many1_iff:
  "r \<in> set (many1 p s) \<longleftrightarrow> (\<exists>pre. pre \<noteq> [] \<and> s = pre @ r \<and> (\<forall>c\<in>set pre. p c))"
proof (cases s)
  case Nil
  then show ?thesis by simp
next
  case (Cons a cs)
  show ?thesis
  proof (cases "p a")
    case True
    have "(\<exists>pre. pre \<noteq> [] \<and> a # cs = pre @ r \<and> (\<forall>c\<in>set pre. p c)) \<longleftrightarrow>
          (\<exists>pre. cs = pre @ r \<and> (\<forall>c\<in>set pre. p c))"
      using True by (auto simp: Cons_eq_append_conv)
    with True Cons show ?thesis by (simp add: many_iff)
  next
    case False
    have "\<not> (\<exists>pre. pre \<noteq> [] \<and> a # cs = pre @ r \<and> (\<forall>c\<in>set pre. p c))"
      using False by (auto simp: Cons_eq_append_conv)
    with False Cons show ?thesis by simp
  qed
qed

lemma rests_Chr_iff: "r \<in> set (rests (Chr a) s) \<longleftrightarrow> s = a # r"
  by (auto split: list.splits)

lemma rests_Eos_iff: "r \<in> set (rests Eos s) \<longleftrightarrow> s = [] \<and> r = []"
  by auto

lemma rests_Seq_iff:
  "r \<in> set (rests (Seq a b) s) \<longleftrightarrow> (\<exists>m. m \<in> set (rests a s) \<and> r \<in> set (rests b m))"
  by auto

lemma rests_Many1_iff:
  "r \<in> set (rests (Many1 p) s) \<longleftrightarrow> (\<exists>pre. pre \<noteq> [] \<and> s = pre @ r \<and> (\<forall>c\<in>set pre. p c))"
  by (simp add: many1_iff)

lemma regex_test_iff: "regex_test r s \<longleftrightarrow> (\<exists>x. x \<in> set (rests r s))"
  by (cases "rests r s") (auto simp: regex_test_def)

lemma match_class_sep:
  "(\<exists>x. x \<in> set (rests (Seq (Many1 p) (Seq (Chr a) r)) s)) \<longleftrightarrow>
   (\<exists>pre t. s = pre @ a # t \<and> pre \<noteq> [] \<and> (\<forall>c\<in>set pre. p c) \<and> (\<exists>x. x \<in> set (rests r t)))"
  unfolding rests_Seq_iff rests_Many1_iff rests_Chr_iff by blast

lemma match_class_end:
  "(\<exists>x. x \<in> set (rests (Seq (Many1 p) Eos) s)) \<longleftrightarrow> (s \<noteq> [] \<and> (\<forall>c\<in>set s. p c))"
  unfolding rests_Seq_iff rests_Many1_iff rests_Eos_iff by auto

text \<open>The direct pattern of the source matches exactly the strings of the direct form.\<close>

lemma directPattern_iff: "regex_test directPattern s \<longleftrightarrow> direct_form s"
  unfolding regex_test_iff directPattern_def direct_form_def match_class_sep match_class_end
  by simp

text \<open>The auth pattern of the source matches exactly the strings of the auth form.\<close>

lemma authPattern_iff: "regex_test authPattern s \<longleftrightarrow> auth_form s"
proof -
  have "regex_test authPattern s \<longleftrightarrow>
     (\<exists>u t. s = u @ CHR '':'' # t \<and> u \<noteq> [] \<and> (\<forall>c\<in>set u. c \<noteq> CHR '':'' \<and> c \<noteq> CHR ''@'') \<and>
       (\<exists>pw ta. t = pw @ CHR ''@'' # ta \<and> pw \<noteq> [] \<and>
          (\<forall>c\<in>set pw. c \<noteq> CHR '':'' \<and> c \<noteq> CHR ''@'') \<and>
          (\<exists>h p. ta = h @ CHR '':'' # p \<and> h \<noteq> [] \<and>
             (\<forall>c\<in>set h. \<not> space_char c \<and> c \<noteq> CHR ''@'' \<and> c \<noteq> CHR '':'') \<and>
             p \<noteq> [] \<and> (\<forall>c\<in>set p. digit c))))" (is "_ \<longleftrightarrow> ?N")
    unfolding regex_test_iff authPattern_def match_class_sep match_class_end by simp
  moreover have "?N \<longleftrightarrow> auth_form s"
  proof
    assume ?N
    then obtain u t pw ta h p where
      s: "s = u @ CHR '':'' # t" and u: "u \<noteq> []" "\<forall>c\<in>set u. c \<noteq> CHR '':'' \<and> c \<noteq> CHR ''@''"
      and t: "t = pw @ CHR ''@'' # ta"
      and pw: "pw \<noteq> []" "\<forall>c\<in>set pw. c \<noteq> CHR '':'' \<and> c \<noteq> CHR ''@''"
      and ta: "ta = h @ CHR '':'' # p" and h: "h \<noteq> []"
        "\<forall>c\<in>set h. \<not> space_char c \<and> c \<noteq> CHR ''@'' \<and> c \<noteq> CHR '':''"
      and p: "p \<noteq> []" "\<forall>c\<in>set p. digit c"
      by (elim exE conjE)
    have "s = u @ CHR '':'' # pw @ CHR ''@'' # h @ CHR '':'' # p"
      unfolding s t ta by (rule refl)
    with u pw h p show "auth_form s"
      unfolding auth_form_def by (intro exI conjI)
  next
    assume "auth_form s"
    then obtain u pw h p where
      s: "s = u @ CHR '':'' # pw @ CHR ''@'' # h @ CHR '':'' # p" and u: "u \<noteq> []"
        "\<forall>c\<in>set u. c \<noteq> CHR '':'' \<and> c \<noteq> CHR ''@''"
      and pw: "pw \<noteq> []" "\<forall>c\<in>set pw. c \<noteq> CHR '':'' \<and> c \<noteq> CHR ''@''"
      and h: "h \<noteq> []" "\<forall>c\<in>set h. \<not> space_char c \<and> c \<noteq> CHR ''@'' \<and> c \<noteq> CHR '':''"
      and p: "p \<noteq> []" "\<forall>c\<in>set p. digit c"
      unfolding auth_form_def by (elim exE conjE)
    from s u pw h p show ?N by (intro exI conjI) (rule refl | assumption)+
  qed
  ultimately show ?thesis by simp
qed

text \<open>The test of line 175 on some hosts.\<close>

lemma hasNumber_examples:
  "regex_test hasNumber ''0.0.0.0'' \<and> regex_test hasNumber ''10.0.0.1'' \<and>
   regex_test hasNumber ''255.255.255.255'' \<and> \<not> regex_test hasNumber ''256.1.1.1'' \<and>
   \<not> regex_test hasNumber ''1.2.3'' \<and> \<not> regex_test hasNumber ''1.2.3.4.'' \<and>
   \<not> regex_test hasNumber ''1.2.3.4.5'' \<and> \<not> regex_test hasNumber ''01.2.3.4'' \<and>
   \<not> regex_test hasNumber ''hostA''"
  by code_simp

lemma direct_nonempty: "regex_test directPattern s \<Longrightarrow> s \<noteq> []"
  by (auto simp: directPattern_iff direct_form_def)

lemma auth_nonempty: "regex_test authPattern s \<Longrightarrow> s \<noteq> []"
  by (auto simp: authPattern_iff auth_form_def)

lemma proxyType_cases:
  "proxyType (Some s) = Inl ProxyUndefined \<and> s = [] \<or>
   proxyType (Some s) = Inr Direct \<and> regex_test directPattern s \<or>
   proxyType (Some s) = Inr Auth \<and> \<not> regex_test directPattern s \<and> regex_test authPattern s \<or>
   proxyType (Some s) = Inr Invalid \<and> s \<noteq> [] \<and> \<not> regex_test directPattern s \<and>
     \<not> regex_test authPattern s"
  by (simp add: proxyType_def falsy_def template_def)

subsection \<open>Splitting and reassembling\<close>

lemma js_split_none: "sep \<notin> set p \<Longrightarrow> js_split sep p = (p, [])"
  by (induction p) auto

lemma js_split_first:
  "sep \<notin> set h \<Longrightarrow>
   js_split sep (h @ sep # r) = (h, fst (js_split sep r) # snd (js_split sep r))"
  by (induction h) auto

lemma digit_not_sep: "digit c \<Longrightarrow> c \<noteq> CHR '':'' \<and> c \<noteq> CHR ''@''"
  by (auto simp: digit_def in_range_def)

lemma word_not_sep: "word_char c \<or> c = CHR ''.'' \<Longrightarrow> c \<noteq> CHR '':''"
  by (auto simp: word_char_def digit_def in_range_def)

lemma splitProxy_direct:
  assumes "regex_test directPattern s"
  shows "\<exists>h p. s = h @ CHR '':'' # p \<and>
     splitProxy (Some s) =
       Inr \<lparr>proxyAuth = None, proxyPassword = None, proxyHost = h, proxyPort = Some p\<rparr>"
proof -
  from assms obtain h p where s: "s = h @ CHR '':'' # p"
    and h: "\<forall>c\<in>set h. word_char c \<or> c = CHR ''.''"
    and p: "\<forall>c\<in>set p. digit c"
    unfolding directPattern_iff direct_form_def by (elim exE conjE)
  have "CHR '':'' \<notin> set h" using h word_not_sep by blast
  moreover have "CHR '':'' \<notin> set p" using p digit_not_sep by blast
  ultimately have j: "js_split CHR '':'' s = (h, [p])"
    unfolding s by (simp add: js_split_first js_split_none)
  have t: "proxyType (Some s) = Inr Direct"
    using assms direct_nonempty[OF assms] by (simp add: proxyType_def falsy_def template_def)
  have sp: "splitProxy (Some s) =
      Inr \<lparr>proxyAuth = None, proxyPassword = None, proxyHost = h, proxyPort = Some p\<rparr>"
    using j t by (simp add: splitProxy_def template_def second_def)
  show ?thesis using s sp by (intro exI[of _ h] exI[of _ p] conjI)
qed

lemma splitProxy_auth:
  assumes "\<not> regex_test directPattern s" "regex_test authPattern s"
  shows "\<exists>u pw h p. s = u @ CHR '':'' # pw @ CHR ''@'' # h @ CHR '':'' # p \<and>
     splitProxy (Some s) =
       Inr \<lparr>proxyAuth = Some u, proxyPassword = Some pw, proxyHost = h, proxyPort = Some p\<rparr>"
proof -
  from assms(2) obtain u pw h p where
      s: "s = u @ CHR '':'' # pw @ CHR ''@'' # h @ CHR '':'' # p"
      and u: "\<forall>c\<in>set u. c \<noteq> CHR '':'' \<and> c \<noteq> CHR ''@''"
      and pw: "\<forall>c\<in>set pw. c \<noteq> CHR '':'' \<and> c \<noteq> CHR ''@''"
      and h: "\<forall>c\<in>set h. \<not> space_char c \<and> c \<noteq> CHR ''@'' \<and> c \<noteq> CHR '':''"
      and p: "\<forall>c\<in>set p. digit c"
    unfolding authPattern_iff auth_form_def by (elim exE conjE)
  have p': "CHR '':'' \<notin> set p" "CHR ''@'' \<notin> set p" using p digit_not_sep by blast+
  have 1: "CHR ''@'' \<notin> set (u @ CHR '':'' # pw)" using u pw by auto
  have 2: "CHR ''@'' \<notin> set (h @ CHR '':'' # p)" using h p' by auto
  have "s = (u @ CHR '':'' # pw) @ CHR ''@'' # (h @ CHR '':'' # p)" unfolding s by simp
  then have a: "js_split CHR ''@'' s = (u @ CHR '':'' # pw, [h @ CHR '':'' # p])"
    using js_split_first[OF 1, of "h @ CHR '':'' # p"] js_split_none[OF 2] by simp
  have 3: "CHR '':'' \<notin> set u" "CHR '':'' \<notin> set pw" "CHR '':'' \<notin> set h" using u pw h by auto
  have b: "js_split CHR '':'' (u @ CHR '':'' # pw) = (u, [pw])"
    using js_split_first[OF 3(1), of pw] js_split_none[OF 3(2)] by simp
  have c: "js_split CHR '':'' (h @ CHR '':'' # p) = (h, [p])"
    using js_split_first[OF 3(3), of p] js_split_none[OF p'(1)] by simp
  have "proxyType (Some s) = Inr Auth"
    using assms auth_nonempty[OF assms(2)] by (simp add: proxyType_def falsy_def template_def)
  then have sp: "splitProxy (Some s) =
      Inr \<lparr>proxyAuth = Some u, proxyPassword = Some pw, proxyHost = h, proxyPort = Some p\<rparr>"
    by (simp add: splitProxy_def template_def second_def a b c)
  show ?thesis using s sp by (intro exI[of _ u] exI[of _ pw] exI[of _ h] exI[of _ p] conjI)
qed

text \<open>
  Whatever \<^verbatim>\<open>convertProxy\<close> splits a candidate into, putting the parts together in the
  format of its type gives the candidate back.
\<close>

lemma splitProxy_join:
  assumes "splitProxy (Some c) = Inr ps"
  shows "c \<noteq> [] \<and>
    (if proxyType (Some c) = Inr Auth
     then template (proxyAuth ps) @ '':'' @ template (proxyPassword ps) @ ''@'' @
          proxyHost ps @ '':'' @ template (proxyPort ps)
     else proxyHost ps @ '':'' @ template (proxyPort ps)) = c"
proof -
  consider (u) "proxyType (Some c) = Inl ProxyUndefined"
    | (d) "proxyType (Some c) = Inr Direct" "regex_test directPattern c"
    | (a) "proxyType (Some c) = Inr Auth" "\<not> regex_test directPattern c"
          "regex_test authPattern c"
    | (i) "proxyType (Some c) = Inr Invalid"
    using proxyType_cases[of c] by blast
  then show ?thesis
  proof cases
    case u
    with assms show ?thesis by (simp add: splitProxy_def)
  next
    case d
    from splitProxy_direct[OF d(2)] obtain h p where
      "c = h @ CHR '':'' # p"
      "splitProxy (Some c) =
         Inr \<lparr>proxyAuth = None, proxyPassword = None, proxyHost = h, proxyPort = Some p\<rparr>"
      by (elim exE conjE)
    with assms d(1) show ?thesis by (simp add: template_def)
  next
    case a
    from splitProxy_auth[OF a(2,3)] obtain u pw h p where
      "c = u @ CHR '':'' # pw @ CHR ''@'' # h @ CHR '':'' # p"
      "splitProxy (Some c) =
         Inr \<lparr>proxyAuth = Some u, proxyPassword = Some pw, proxyHost = h, proxyPort = Some p\<rparr>"
      by (elim exE conjE)
    with assms a(1) show ?thesis by (simp add: template_def)
  next
    case i
    with assms show ?thesis by (simp add: splitProxy_def)
  qed
qed

lemma convertProxy_literal:
  assumes "literal_host c"
  shows "convertProxy env w (Some c) = (Inr c, w)"
proof -
  from assms obtain ps where ps: "splitProxy (Some c) = Inr ps"
    and lit: "regex_test hasNumber (proxyHost ps)"
    by (auto simp: literal_host_def split: sum.splits)
  from splitProxy_join[OF ps] lit ps show ?thesis
    by (cases "proxyType (Some c) = Inr Auth") (simp_all add: convertProxy_def falsy_def)
qed

lemma separator_unique:
  assumes "x \<notin> set h" "x \<notin> set p" "h @ x # p = a @ x # b"
  shows "a = h \<and> b = p"
proof -
  from assms(3) consider us where "h = a @ us" "us @ x # p = x # b"
    | us where "h @ us = a" "x # p = us @ x # b"
    by (auto simp: append_eq_append_conv2)
  then show ?thesis
  proof cases
    case 1
    show ?thesis
    proof (cases us)
      case Nil
      with 1 show ?thesis by simp
    next
      case (Cons u us')
      with 1 have "x \<in> set h" by simp
      with assms(1) show ?thesis by simp
    qed
  next
    case 2
    show ?thesis
    proof (cases us)
      case Nil
      with 2 show ?thesis by simp
    next
      case (Cons u us')
      with 2 have "x \<in> set p" by auto
      with assms(2) show ?thesis by simp
    qed
  qed
qed

lemma direct_form_parts:
  assumes "direct_form (host @ CHR '':'' # port)"
  shows "proxyType (Some (host @ CHR '':'' # port)) = Inr Direct \<and>
         splitProxy (Some (host @ CHR '':'' # port)) =
           Inr \<lparr>proxyAuth = None, proxyPassword = None, proxyHost = host, proxyPort = Some port\<rparr>"
proof -
  let ?c = "host @ CHR '':'' # port"
  from assms obtain h p where c: "?c = h @ CHR '':'' # p"
    and h: "\<forall>c\<in>set h. word_char c \<or> c = CHR ''.''"
    and p: "\<forall>c\<in>set p. digit c"
    unfolding direct_form_def by (elim exE conjE)
  have nh: "CHR '':'' \<notin> set h" using h word_not_sep by blast
  have np: "CHR '':'' \<notin> set p" using p digit_not_sep by blast
  from separator_unique[OF nh np c[symmetric]] have eq: "host = h" "port = p" by simp_all
  have r: "regex_test directPattern ?c" using assms by (simp add: directPattern_iff)
  have t: "proxyType (Some ?c) = Inr Direct"
    using r by (simp add: proxyType_def falsy_def template_def)
  have j: "js_split CHR '':'' ?c = (host, [port])"
    using nh np eq by (simp add: js_split_first js_split_none)
  have "splitProxy (Some ?c) =
      Inr \<lparr>proxyAuth = None, proxyPassword = None, proxyHost = host, proxyPort = Some port\<rparr>"
    using t j by (simp add: splitProxy_def template_def second_def)
  with t show ?thesis by simp
qed

lemma convertProxy_malformed:
  assumes "splitProxy (Some c) = Inl e"
  shows "convertProxy env w (Some c) = (Inl e, w)"
  using assms by (auto simp: convertProxy_def splitProxy_def proxyType_def)

lemma splitProxy_error:
  assumes "splitProxy p = Inl e"
  shows "e \<noteq> AllProxiesFailed"
  using assms
  by (auto simp: splitProxy_def proxyType_def Let_def split: if_splits option.splits)

lemma convertProxy_undefined: "convertProxy env w None = (Inl ProxyUndefined, w)"
  by (simp add: convertProxy_def falsy_def)

lemma needs_no_lookup_cases:
  assumes "needs_no_lookup c"
  shows "literal_host c \<or> (\<exists>e. splitProxy (Some c) = Inl e)"
  using assms by (auto simp: needs_no_lookup_def literal_host_def split: sum.splits)

subsection \<open>Validation\<close>

lemma typeof_undefined: "typeof v = TUndefined \<longleftrightarrow> v = JUndefined"
  by (cases v) simp_all

lemmas default_defs = default_verbose_def default_maxTimeout_def default_verboseIdentifier_def
  default_pingUrl_def default_forceRetry_def

lemma fill_defaults_fields:
  "verbose (fill_defaults opts) = (if verbose opts = JUndefined then JBool False else verbose opts)"
  "maxTimeout (fill_defaults opts) =
     (if maxTimeout opts = JUndefined then JNum 1000 else maxTimeout opts)"
  "verboseIdentifier (fill_defaults opts) =
     (if verboseIdentifier opts = JUndefined then JStr ''[proxyChooser]''
      else verboseIdentifier opts)"
  "pingUrl (fill_defaults opts) =
     (if pingUrl opts = JUndefined then JStr ''http://myexternalip.com/raw'' else pingUrl opts)"
  "forceRetry (fill_defaults opts) =
     (if forceRetry opts = JUndefined then JBool False else forceRetry opts)"
  by (simp_all add: fill_defaults_def default_defs typeof_undefined)

lemma fill_defaults_idem: "fill_defaults (fill_defaults opts) = fill_defaults opts"
  by (rule options.equality) (simp_all add: fill_defaults_fields)

lemma ill_typed_fill: "ill_typed (fill_defaults opts) \<longleftrightarrow> \<not> valid_options opts"
  by (auto simp: ill_typed_def valid_options_def well_typed_def fill_defaults_fields typeof_undefined)

lemma valid_fill: "valid_options (fill_defaults opts) \<longleftrightarrow> valid_options opts"
  by (auto simp: valid_options_def well_typed_def fill_defaults_fields typeof_undefined)

lemma validateOptions_eq:
  "validateOptions s =
     (if valid_options (options s) then Inr True else Inl InvalidOptions, validated s)"
  by (simp add: validateOptions_def Let_def ill_typed_fill validated_def)

lemma validated_fields:
  "proxyList (validated s) = proxyList s" "cache (validated s) = cache s"
  "world (validated s) = world s" "probes (validated s) = probes s"
  "options (validated s) = fill_defaults (options s)"
  by (simp_all add: validated_def)

lemma validated_idem: "validated (validated s) = validated s"
  by (simp add: validated_def fill_defaults_idem)

lemma remaining_validated: "remaining (validated s) = remaining s"
  by (simp add: remaining_def validated_fields)

subsection \<open>The prober\<close>

lemma testProxy_invalid:
  "\<not> valid_options (options s) \<Longrightarrow> testProxy env s a = (Inl InvalidOptions, validated s)"
  by (simp add: testProxy_def validateOptions_eq)

lemma testProxy_falsy:
  "valid_options (options s) \<Longrightarrow> falsy a \<Longrightarrow> testProxy env s a = (Inl ProxyUndefined, validated s)"
  by (simp add: testProxy_def validateOptions_eq)

lemma testProxy_convert_fails:
  assumes "valid_options (options s)" "\<not> falsy a" "convertProxy env (world s) a = (Inl e, w')"
  shows "testProxy env s a = (Inl e, (validated s)\<lparr>world := w'\<rparr>)"
  using assms by (simp add: testProxy_def validateOptions_eq validated_fields)

lemma testProxy_probe:
  assumes "valid_options (options s)" "\<not> falsy a" "convertProxy env (world s) a = (Inr p, w')"
    and "proxiedGet env w' (pingUrl (fill_defaults (options s))) p
           (maxTimeout (fill_defaults (options s))) = (r, w'')"
  shows "testProxy env s a =
     (Inr (within_budget r (maxTimeout (fill_defaults (options s)))),
      (validated s)\<lparr>world := w'',
         probes := probes s @
           [\<lparr>asked = template a, via = p, cached = cache s,
             working = within_budget r (maxTimeout (fill_defaults (options s)))\<rparr>]\<rparr>)"
  using assms by (simp add: testProxy_def validateOptions_eq validated_fields)

lemma convertProxy_not_falsy: "convertProxy env w a = (Inr p, w') \<Longrightarrow> \<not> falsy a"
  by (auto simp: convertProxy_def split: if_splits)

text \<open>What \<^verbatim>\<open>testProxy\<close> leaves of the state, whatever it answers.\<close>

lemma testProxy_frame:
  assumes "testProxy env s a = (r, s')"
  shows "proxyList s' = proxyList s \<and> cache s' = cache s \<and>
         options s' = fill_defaults (options s) \<and>
         (\<exists>new. probes s' = probes s @ new \<and> length new \<le> 1 \<and>
                (\<forall>e\<in>set new. asked e = template a \<and> cached e = cache s))"
proof (cases "valid_options (options s)")
  case False
  with assms testProxy_invalid[OF False, of env a] show ?thesis
    by (auto simp: validated_fields)
next
  case True
  show ?thesis
  proof (cases "falsy a")
    case t: True
    with assms testProxy_falsy[OF True t, of env] show ?thesis
      by (auto simp: validated_fields)
  next
    case f: False
    obtain c w' where c: "convertProxy env (world s) a = (c, w')" by (cases "convertProxy env (world s) a")
    show ?thesis
    proof (cases c)
      case (Inl e)
      with assms testProxy_convert_fails[OF True f, of env e w'] c show ?thesis
        by (auto simp: validated_fields)
    next
      case (Inr p)
      obtain r' w'' where g: "proxiedGet env w' (pingUrl (fill_defaults (options s))) p
           (maxTimeout (fill_defaults (options s))) = (r', w'')"
        by (cases "proxiedGet env w' (pingUrl (fill_defaults (options s))) p
           (maxTimeout (fill_defaults (options s)))")
      from c Inr have "convertProxy env (world s) a = (Inr p, w')" by simp
      from testProxy_probe[OF True f this g] assms show ?thesis
        by (auto simp: validated_fields)
    qed
  qed
qed

subsection \<open>One cycle of the selection\<close>

lemma mark_Inr:
  assumes "mark s p = Inr s2"
  shows "p \<in> set (cache s2) \<and> proxyList s2 = proxyList s \<and> options s2 = options s \<and>
         probes s2 = probes s \<and> world s2 = world s \<and>
         (cache s2 = cache s \<or> (p \<notin> set (cache s) \<and> cache s2 = cache s @ [p]))"
  using assms by (auto simp: mark_def split: if_splits)

lemma mark_Inl:
  assumes "mark s p = Inl e"
  shows "e = AllProxiesFailed \<and> p \<in> set (cache s) \<and> length (cache s) = length (proxyList s)"
  using assms by (auto simp: mark_def split: if_splits)

lemma getProxy_try_unfold:
  assumes "randomTimes env (world s) (length (remaining s)) = (r, w1)"
    and "convertProxy env w1 (draw r (remaining s)) = (cv, w2)"
  shows "getProxy_try env s =
     (case cv of
        Inl e \<Rightarrow> (Throw e, s\<lparr>world := w2\<rparr>)
      | Inr proxy \<Rightarrow>
          (case mark (s\<lparr>world := w2\<rparr>) proxy of
             Inl e \<Rightarrow> (Throw e, s\<lparr>world := w2\<rparr>)
           | Inr s2 \<Rightarrow>
               (case testProxy env s2 (Some proxy) of
                  (Inl e, s3) \<Rightarrow> (Throw e, s3)
                | (Inr b, s3) \<Rightarrow> (if b then Return proxy else Again, s3))))"
  using assms by (simp add: getProxy_try_def split: sum.splits prod.splits)

lemma getProxy_try_frame:
  assumes "getProxy_try env s = (st, s')"
  shows "proxyList s' = proxyList s \<and>
         (options s' = options s \<or> options s' = fill_defaults (options s)) \<and>
         (cache s' = cache s \<or> (\<exists>p. p \<notin> set (cache s) \<and> cache s' = cache s @ [p])) \<and>
         (\<exists>new. probes s' = probes s @ new \<and> length new \<le> 1 \<and>
                (\<forall>e\<in>set new. asked e \<in> set (cached e) \<and> cached e = cache s'))"
proof -
  obtain r w1 where r: "randomTimes env (world s) (length (remaining s)) = (r, w1)"
    by (cases "randomTimes env (world s) (length (remaining s))")
  obtain cv w2 where cv: "convertProxy env w1 (draw r (remaining s)) = (cv, w2)"
    by (cases "convertProxy env w1 (draw r (remaining s))")
  note u = getProxy_try_unfold[OF r cv]
  show ?thesis
  proof (cases cv)
    case (Inl e)
    with u assms show ?thesis by auto
  next
    case (Inr proxy)
    show ?thesis
    proof (cases "mark (s\<lparr>world := w2\<rparr>) proxy")
      case (Inl e)
      with u Inr assms show ?thesis by auto
    next
      case m: (Inr s2)
      obtain tr s3 where t: "testProxy env s2 (Some proxy) = (tr, s3)"
        by (cases "testProxy env s2 (Some proxy)")
      from mark_Inr[OF m] have s2: "proxy \<in> set (cache s2)" "proxyList s2 = proxyList s"
        "options s2 = options s" "probes s2 = probes s"
        "cache s2 = cache s \<or> (proxy \<notin> set (cache s) \<and> cache s2 = cache s @ [proxy])"
        by simp_all
      from testProxy_frame[OF t] obtain new where
        s3: "proxyList s3 = proxyList s2" "cache s3 = cache s2"
        "options s3 = fill_defaults (options s2)"
        and new: "probes s3 = probes s2 @ new" "length new \<le> 1"
        "\<forall>e\<in>set new. asked e = template (Some proxy) \<and> cached e = cache s2"
        by blast
      have s': "s' = s3" using u Inr m t assms by (auto split: sum.splits if_splits)
      have "\<forall>e\<in>set new. asked e \<in> set (cached e) \<and> cached e = cache s3"
        using new(3) s2(1) s3(2) by (simp add: template_def)
      with new(1,2) s2 s3 show ?thesis unfolding s' by auto
    qed
  qed
qed

lemma getProxy_frame:
  "getProxy n env s = (res, s') \<Longrightarrow>
     proxyList s' = proxyList s \<and>
     (\<exists>new. probes s' = probes s @ new \<and> (\<forall>e\<in>set new. asked e \<in> set (cached e)))"
proof (induction n arbitrary: s)
  case 0
  then show ?case by simp
next
  case (Suc n)
  show ?case
  proof (cases "valid_options (options s)")
    case False
    with Suc.prems show ?thesis by (auto simp: validateOptions_eq validated_fields)
  next
    case True
    obtain st s1 where t: "getProxy_try env (validated s) = (st, s1)"
      by (cases "getProxy_try env (validated s)")
    from getProxy_try_frame[OF t] obtain new1 where
      f: "proxyList s1 = proxyList s" "probes s1 = probes s @ new1"
         "\<forall>e\<in>set new1. asked e \<in> set (cached e)"
      by (auto simp: validated_fields)
    show ?thesis
    proof (cases st)
      case (Return p)
      with Suc.prems True t f show ?thesis by (auto simp: validateOptions_eq)
    next
      case Again
      with Suc.prems True t have "getProxy n env s1 = (res, s')"
        by (simp add: validateOptions_eq)
      from Suc.IH[OF this] f show ?thesis by auto
    next
      case (Throw e)
      show ?thesis
      proof (cases "truthy (forceRetry (options s1))")
        case r: True
        with Suc.prems True t Throw have "getProxy n env (snd (resetCache s1)) = (res, s')"
          by (simp add: validateOptions_eq)
        from Suc.IH[OF this] f show ?thesis by (auto simp: resetCache_def)
      next
        case False
        with Suc.prems True t Throw f show ?thesis by (auto simp: validateOptions_eq)
      qed
    qed
  qed
qed

lemma js_index_cases: "js_index xs i = None \<or> (\<exists>c. js_index xs i = Some c \<and> c \<in> set xs)"
proof (cases "0 \<le> i \<and> i < int (length xs)")
  case True
  then have "nat i < length xs" by linarith
  then have "xs ! nat i \<in> set xs" by (rule nth_mem)
  with True show ?thesis by (simp add: js_index_def)
next
  case False
  then show ?thesis by (auto simp: js_index_def)
qed

lemma draw_cases: "draw r xs = None \<or> (\<exists>c. draw r xs = Some c \<and> c \<in> set xs)"
  unfolding draw_def by (rule js_index_cases)

lemma draw_empty: "draw r [] = None"
  by (simp add: draw_def js_index_def)

lemma draw_in_range:
  assumes "0 \<le> x" "x < real (length xs)"
  shows "nat \<lfloor>x\<rfloor> < length xs \<and> draw x xs = Some (xs ! nat \<lfloor>x\<rfloor>)"
proof -
  have lo: "0 \<le> \<lfloor>x\<rfloor>" using assms(1) by simp
  have hi: "\<lfloor>x\<rfloor> < int (length xs)" using assms(2) by (simp add: floor_less_iff)
  from lo hi show ?thesis by (simp add: draw_def js_index_def nat_less_iff)
qed

lemma remaining_after_insert:
  "remaining (s\<lparr>cache := cache s @ [c]\<rparr>) = filter (\<lambda>x. x \<noteq> c) (remaining s)"
  by (auto simp: remaining_def intro: filter_cong)

lemma length_remaining_less:
  "c \<in> set xs \<Longrightarrow> length (filter (\<lambda>x. x \<noteq> c) xs) < length xs"
  by (induction xs) (auto simp: less_Suc_eq_le)

lemma getProxy_try_static:
  assumes v: "valid_options (options s)" and st: "list_all needs_no_lookup (proxyList s)"
  shows "(\<exists>e w'. getProxy_try env s = (Throw e, s\<lparr>world := w'\<rparr>) \<and> e \<noteq> AllProxiesFailed) \<or>
         (\<exists>c w' b. c \<in> set (remaining s) \<and>
            getProxy_try env s =
              (if b then Return c else Again,
               (validated s)\<lparr>world := w', cache := cache s @ [c],
                  probes := probes s @
                    [\<lparr>asked = c, via = c, cached = cache s @ [c], working = b\<rparr>]\<rparr>))"
proof -
  obtain r w1 where r: "randomTimes env (world s) (length (remaining s)) = (r, w1)"
    by (cases "randomTimes env (world s) (length (remaining s))")
  from draw_cases[of r "remaining s"] show ?thesis
  proof
    assume "draw r (remaining s) = None"
    then have "convertProxy env w1 (draw r (remaining s)) = (Inl ProxyUndefined, w1)"
      by (simp add: convertProxy_undefined)
    from getProxy_try_unfold[OF r this]
    have "getProxy_try env s = (Throw ProxyUndefined, s\<lparr>world := w1\<rparr>)" by simp
    then have "\<exists>e w'. getProxy_try env s = (Throw e, s\<lparr>world := w'\<rparr>) \<and> e \<noteq> AllProxiesFailed"
      by (intro exI[of _ ProxyUndefined] exI[of _ w1]) simp
    then show ?thesis by (rule disjI1)
  next
    assume "\<exists>c. draw r (remaining s) = Some c \<and> c \<in> set (remaining s)"
    then obtain c where d: "draw r (remaining s) = Some c" and c: "c \<in> set (remaining s)"
      by blast
    from c have cl: "c \<in> set (proxyList s)" and cc: "c \<notin> set (cache s)"
      by (auto simp: remaining_def)
    from st cl have "needs_no_lookup c" by (simp add: list_all_iff)
    from needs_no_lookup_cases[OF this] show ?thesis
    proof
      assume "\<exists>e. splitProxy (Some c) = Inl e"
      then obtain e where e: "splitProxy (Some c) = Inl e" by blast
      from convertProxy_malformed[OF e, of env w1] d
      have "convertProxy env w1 (draw r (remaining s)) = (Inl e, w1)" by simp
      from getProxy_try_unfold[OF r this]
      have "getProxy_try env s = (Throw e, s\<lparr>world := w1\<rparr>)" by simp
      with splitProxy_error[OF e]
      have "\<exists>e w'. getProxy_try env s = (Throw e, s\<lparr>world := w'\<rparr>) \<and> e \<noteq> AllProxiesFailed"
        by (intro exI[of _ e] exI[of _ w1]) simp
      then show ?thesis by (rule disjI1)
    next
      assume lit: "literal_host c"
      have cv: "convertProxy env w1 (draw r (remaining s)) = (Inr c, w1)"
        using convertProxy_literal[OF lit, of env w1] d by simp
      define s2 where "s2 = s\<lparr>world := w1, cache := cache s @ [c]\<rparr>"
      have m: "mark (s\<lparr>world := w1\<rparr>) c = Inr s2"
        using cc by (simp add: mark_def s2_def)
      have nf: "\<not> falsy (Some c)"
        using convertProxy_not_falsy[OF convertProxy_literal[OF lit, of env w1]] .
      have v2: "valid_options (options s2)" using v by (simp add: s2_def)
      have c2: "convertProxy env (world s2) (Some c) = (Inr c, w1)"
        using convertProxy_literal[OF lit, of env w1] by (simp add: s2_def)
      obtain g w2 where g: "proxiedGet env w1 (pingUrl (fill_defaults (options s2))) c
           (maxTimeout (fill_defaults (options s2))) = (g, w2)"
        by (cases "proxiedGet env w1 (pingUrl (fill_defaults (options s2))) c
           (maxTimeout (fill_defaults (options s2)))")
      define b where "b = within_budget g (maxTimeout (fill_defaults (options s2)))"
      have t: "testProxy env s2 (Some c) =
        (Inr b, (validated s)\<lparr>world := w2, cache := cache s @ [c],
                  probes := probes s @
                    [\<lparr>asked = c, via = c, cached = cache s @ [c], working = b\<rparr>]\<rparr>)"
        using testProxy_probe[OF v2 nf c2 g]
        by (simp add: b_def s2_def validated_def template_def)
      have "getProxy_try env s =
              (if b then Return c else Again,
               (validated s)\<lparr>world := w2, cache := cache s @ [c],
                  probes := probes s @
                    [\<lparr>asked = c, via = c, cached = cache s @ [c], working = b\<rparr>]\<rparr>)"
        using getProxy_try_unfold[OF r cv] m t by simp
      with c show ?thesis by blast
    qed
  qed
qed

subsection \<open>The selection loop on candidates that need no resolver\<close>

lemma getProxy_static:
  assumes "valid_options (options s)"
    and "forceRetry (fill_defaults (options s)) = JBool False"
    and "list_all needs_no_lookup (proxyList s)"
    and "length (remaining s) < n"
  shows "\<exists>res s' new. getProxy n env s = (Some res, s') \<and>
           probes s' = probes s @ new \<and>
           length new \<le> length (remaining s) \<and>
           distinct (map via new) \<and>
           set (map via new) \<subseteq> set (remaining s) \<and>
           (case res of Inr p \<Rightarrow> p \<in> set (map via new)
            | Inl e \<Rightarrow> \<exists>e'. e = Rethrown e' \<and> e' \<noteq> AllProxiesFailed) \<and>
           (\<forall>e\<in>set new. working e \<longleftrightarrow> res = Inr (via e))"
  using assms
proof (induction n arbitrary: s)
  case 0
  then show ?case by simp
next
  case (Suc n)
  let ?s0 = "validated s"
  have v0: "valid_options (options ?s0)" using Suc.prems(1) by (simp add: validated_fields valid_fill)
  have l0: "list_all needs_no_lookup (proxyList ?s0)" using Suc.prems(3) by (simp add: validated_fields)
  have f0: "\<not> truthy (forceRetry (options ?s0))" using Suc.prems(2) by (simp add: validated_fields)
  have step: "getProxy (Suc n) env s =
     (case getProxy_try env ?s0 of
        (Return proxy, s1) \<Rightarrow> (Some (Inr proxy), s1)
      | (Again, s1) \<Rightarrow> getProxy n env s1
      | (Throw e, s1) \<Rightarrow>
          if truthy (forceRetry (options s1)) then getProxy n env (snd (resetCache s1))
          else (Some (Inl (Rethrown e)), s1))"
    using Suc.prems(1) by (simp add: validateOptions_eq)
  from getProxy_try_static[OF v0 l0, of env] show ?case
  proof
    assume "\<exists>e w'. getProxy_try env ?s0 = (Throw e, ?s0\<lparr>world := w'\<rparr>) \<and> e \<noteq> AllProxiesFailed"
    then obtain e w' where t: "getProxy_try env ?s0 = (Throw e, ?s0\<lparr>world := w'\<rparr>)"
      and ne: "e \<noteq> AllProxiesFailed" by blast
    have "getProxy (Suc n) env s = (Some (Inl (Rethrown e)), ?s0\<lparr>world := w'\<rparr>)"
      using step t f0 by simp
    then show ?thesis using ne
      by (intro exI[of _ "Inl (Rethrown e)"] exI[of _ "?s0\<lparr>world := w'\<rparr>"] exI[of _ "[]"])
         (simp add: validated_fields)
  next
    assume "\<exists>c w' b. c \<in> set (remaining ?s0) \<and>
            getProxy_try env ?s0 =
              (if b then Return c else Again,
               (validated ?s0)\<lparr>world := w', cache := cache ?s0 @ [c],
                  probes := probes ?s0 @
                    [\<lparr>asked = c, via = c, cached = cache ?s0 @ [c], working = b\<rparr>]\<rparr>)"
    then obtain c w' b where c: "c \<in> set (remaining s)"
      and t: "getProxy_try env ?s0 =
              (if b then Return c else Again,
               ?s0\<lparr>world := w', cache := cache s @ [c],
                  probes := probes s @
                    [\<lparr>asked = c, via = c, cached = cache s @ [c], working = b\<rparr>]\<rparr>)"
      by (auto simp: validated_idem validated_fields remaining_validated)
    define entry where "entry = \<lparr>asked = c, via = c, cached = cache s @ [c], working = b\<rparr>"
    define s1 where "s1 = ?s0\<lparr>world := w', cache := cache s @ [c], probes := probes s @ [entry]\<rparr>"
    have t': "getProxy_try env ?s0 = (if b then Return c else Again, s1)"
      using t by (simp add: s1_def entry_def)
    have pos: "1 \<le> length (remaining s)" using c by (cases "remaining s") auto
    show ?thesis
    proof (cases b)
      case True
      have "getProxy (Suc n) env s = (Some (Inr c), s1)" using step t' True by simp
      then show ?thesis using c pos True
        by (intro exI[of _ "Inr c"] exI[of _ s1] exI[of _ "[entry]"])
           (simp add: s1_def entry_def validated_fields)
    next
      case False
      have g: "getProxy (Suc n) env s = getProxy n env s1" using step t' False by simp
      have r1: "remaining s1 = filter (\<lambda>x. x \<noteq> c) (remaining s)"
        by (auto simp: remaining_def s1_def validated_fields intro: filter_cong)
      have less: "length (remaining s1) < length (remaining s)"
        unfolding r1 using c by (rule length_remaining_less)
      have a1: "valid_options (options s1)"
        using Suc.prems(1) by (simp add: s1_def validated_fields valid_fill)
      have a2: "forceRetry (fill_defaults (options s1)) = JBool False"
        using Suc.prems(2) by (simp add: s1_def validated_fields fill_defaults_idem)
      have a3: "list_all needs_no_lookup (proxyList s1)"
        using Suc.prems(3) by (simp add: s1_def validated_fields)
      have a4: "length (remaining s1) < n" using less Suc.prems(4) by simp
      from Suc.IH[OF a1 a2 a3 a4] obtain res s' new where
        run: "getProxy n env s1 = (Some res, s')"
        and pr: "probes s' = probes s1 @ new"
        and len: "length new \<le> length (remaining s1)"
        and dist: "distinct (map via new)"
        and sub: "set (map via new) \<subseteq> set (remaining s1)"
        and res: "case res of Inr p \<Rightarrow> p \<in> set (map via new)
                  | Inl e \<Rightarrow> \<exists>e'. e = Rethrown e' \<and> e' \<noteq> AllProxiesFailed"
        and wk: "\<forall>e\<in>set new. working e \<longleftrightarrow> res = Inr (via e)"
        by blast
      have notc: "c \<notin> set (map via new)" using sub r1 by auto
      have sub': "set (map via new) \<subseteq> set (remaining s)" using sub r1 by auto
      have resc: "res \<noteq> Inr c" using res notc by (cases res) auto
      have 1: "probes s' = probes s @ (entry # new)" using pr by (simp add: s1_def)
      have 2: "length (entry # new) \<le> length (remaining s)" using len less by simp
      have 3: "distinct (map via (entry # new))" using dist notc by (simp add: entry_def)
      have 4: "set (map via (entry # new)) \<subseteq> set (remaining s)"
        using sub' c by (simp add: entry_def)
      have 5: "case res of Inr p \<Rightarrow> p \<in> set (map via (entry # new))
                 | Inl e \<Rightarrow> \<exists>e'. e = Rethrown e' \<and> e' \<noteq> AllProxiesFailed"
        using res by (cases res) auto
      have 6: "\<forall>e\<in>set (entry # new). working e \<longleftrightarrow> res = Inr (via e)"
        using wk resc False by (simp add: entry_def)
      from g run 1 2 3 4 5 6 show ?thesis
        by (intro exI[of _ res] exI[of _ s'] exI[of _ "entry # new"]) simp
    qed
  qed
qed

subsection \<open>The operations of the State Holder\<close>

lemma addProxies_eq:
  "addProxies s a =
     (if \<not> valid_options (options s) then (Inl InvalidOptions, validated s)
      else case a of
             Missing \<Rightarrow> (Inr False, validated s)
           | NotArray \<Rightarrow> (Inr False, validated s)
           | Array ps \<Rightarrow>
               if ps = [] then (Inr False, validated s)
               else (Inr True, (validated s)\<lparr>proxyList := proxyList s @ ps\<rparr>))"
  by (simp add: addProxies_def validateOptions_eq validated_fields split: proxies_arg.splits)

lemma getPing_invalid:
  "\<not> valid_options (options s) \<Longrightarrow> getPing env s = (Inl InvalidOptions, validated s)"
  by (simp add: getPing_def validateOptions_eq)

lemma getProxy_invalid:
  "\<not> valid_options (options s) \<Longrightarrow>
   getProxy (Suc n) env s = (Some (Inl InvalidOptions), validated s)"
  by (simp add: validateOptions_eq)

lemma getPing_frame:
  "proxyList (snd (getPing env s)) = proxyList s \<and> cache (snd (getPing env s)) = cache s \<and>
   probes (snd (getPing env s)) = probes s"
  by (simp add: getPing_def validateOptions_eq validated_fields split: prod.splits option.splits)

lemma getProxy_try_cache_grows:
  "getProxy_try env s = (st, s') \<Longrightarrow> set (cache s) \<subseteq> set (cache s')"
  using getProxy_try_frame[of env s st s'] by auto

lemma getProxy_try_asks_normalized:
  assumes r: "randomTimes env (world s) (length (remaining s)) = (r, w1)"
    and cv: "convertProxy env w1 (draw r (remaining s)) = (cv, w2)"
    and t: "getProxy_try env s = (st, s')"
    and new: "probes s' = probes s @ new" "e \<in> set new"
  shows "cv = Inr (asked e)"
proof (cases cv)
  case (Inl err)
  with getProxy_try_unfold[OF r cv] t have "probes s' = probes s" by auto
  with new show ?thesis by simp
next
  case (Inr proxy)
  show ?thesis
  proof (cases "mark (s\<lparr>world := w2\<rparr>) proxy")
    case (Inl err)
    with getProxy_try_unfold[OF r cv] Inr t have "probes s' = probes s" by auto
    with new show ?thesis by simp
  next
    case m: (Inr s2)
    obtain tr s3 where tp: "testProxy env s2 (Some proxy) = (tr, s3)"
      by (cases "testProxy env s2 (Some proxy)")
    have s': "s' = s3" using getProxy_try_unfold[OF r cv] Inr m tp t
      by (auto split: sum.splits if_splits)
    from testProxy_frame[OF tp] obtain new' where
      n': "probes s3 = probes s2 @ new'" "\<forall>e\<in>set new'. asked e = template (Some proxy)"
      by blast
    from mark_Inr[OF m] have "probes s2 = probes s" by simp
    with n'(1) new(1) s' have "new' = new" by simp
    with n'(2) new(2) have "asked e = proxy" by (simp add: template_def)
    with Inr show ?thesis by simp
  qed
qed

text \<open>
  The drawing step as the source has it: the remaining list holds the candidates that
  are not, as raw strings, elements of the cache; on an empty list the cycle throws
  before any probe; otherwise, the product lying in the range of the list, the drawn
  candidate is the element at the floored index.
\<close>

lemma drawing_step:
  assumes "randomTimes env (world s) (length (remaining s)) = (r, w1)"
  shows "remaining s = filter (\<lambda>c. c \<notin> set (cache s)) (proxyList s) \<and>
         (remaining s = [] \<longrightarrow>
            (\<exists>e. getProxy_try env s = (Throw e, s\<lparr>world := w1\<rparr>))) \<and>
         (0 \<le> r \<and> r < real (length (remaining s)) \<longrightarrow>
            (\<exists>c. draw r (remaining s) = Some c \<and> c = remaining s ! nat \<lfloor>r\<rfloor> \<and>
                 c \<in> set (proxyList s) \<and> c \<notin> set (cache s)))"
proof (intro conjI impI)
  show "remaining s = filter (\<lambda>c. c \<notin> set (cache s)) (proxyList s)"
    by (simp add: remaining_def)
next
  assume "remaining s = []"
  then have "convertProxy env w1 (draw r (remaining s)) = (Inl ProxyUndefined, w1)"
    by (simp add: draw_empty convertProxy_undefined)
  from getProxy_try_unfold[OF assms this]
  have "getProxy_try env s = (Throw ProxyUndefined, s\<lparr>world := w1\<rparr>)" by simp
  then show "\<exists>e. getProxy_try env s = (Throw e, s\<lparr>world := w1\<rparr>)" by blast
next
  assume a: "0 \<le> r \<and> r < real (length (remaining s))"
  let ?i = "nat \<lfloor>r\<rfloor>"
  from a draw_in_range[of r "remaining s"]
  have i: "?i < length (remaining s)" and d: "draw r (remaining s) = Some (remaining s ! ?i)"
    by simp_all
  from i have "remaining s ! ?i \<in> set (remaining s)" by (rule nth_mem)
  then have "remaining s ! ?i \<in> set (proxyList s)" "remaining s ! ?i \<notin> set (cache s)"
    by (simp_all add: remaining_def)
  with d show "\<exists>c. draw r (remaining s) = Some c \<and> c = remaining s ! nat \<lfloor>r\<rfloor> \<and>
                 c \<in> set (proxyList s) \<and> c \<notin> set (cache s)"
    by simp
qed

text \<open>
  The \<^verbatim>\<open>catch\<close> block, lines 324 to 334, treats every error of the cycle alike. With
  \<^verbatim>\<open>forceRetry\<close> set the call continues as a fresh call on the state with the cache
  cleared, whose drawing step has the whole candidate list to draw from; otherwise the
  error reaches the caller, wrapped once by \<^verbatim>\<open>new Error(error)\<close>.
\<close>

lemma getProxy_catch:
  assumes "valid_options (options s)"
    and "getProxy_try env (validated s) = (Throw e, s1)"
  shows "(truthy (forceRetry (options s1)) \<longrightarrow>
            getProxy (Suc n) env s = getProxy n env (s1\<lparr>cache := []\<rparr>) \<and>
            remaining (s1\<lparr>cache := []\<rparr>) = proxyList s) \<and>
         (\<not> truthy (forceRetry (options s1)) \<longrightarrow>
            getProxy (Suc n) env s = (Some (Inl (Rethrown e)), s1))"
proof -
  from getProxy_try_frame[OF assms(2)] have "proxyList s1 = proxyList s"
    by (simp add: validated_fields)
  then have "remaining (s1\<lparr>cache := []\<rparr>) = proxyList s" by (simp add: remaining_def)
  then show ?thesis using assms by (simp add: validateOptions_eq resetCache_def)
qed

subsection \<open>Fuel\<close>

text \<open>A run that returns with some bound on the depth returns the same with every larger one.\<close>

lemma getProxy_more_fuel:
  "getProxy n env s = (Some res, s') \<Longrightarrow> getProxy (n + k) env s = (Some res, s')"
proof (induction n arbitrary: s)
  case 0
  then show ?case by simp
next
  case (Suc n)
  show ?case
  proof (cases "valid_options (options s)")
    case False
    with Suc.prems show ?thesis by (simp add: validateOptions_eq)
  next
    case True
    obtain st s1 where t: "getProxy_try env (validated s) = (st, s1)"
      by (cases "getProxy_try env (validated s)")
    show ?thesis
    proof (cases st)
      case (Return p)
      with Suc.prems True t show ?thesis by (simp add: validateOptions_eq)
    next
      case Again
      with Suc.prems True t have "getProxy n env s1 = (Some res, s')"
        by (simp add: validateOptions_eq)
      from Suc.IH[OF this] Again True t show ?thesis by (simp add: validateOptions_eq)
    next
      case (Throw e)
      show ?thesis
      proof (cases "truthy (forceRetry (options s1))")
        case r: True
        with Suc.prems True t Throw have "getProxy n env (snd (resetCache s1)) = (Some res, s')"
          by (simp add: validateOptions_eq)
        from Suc.IH[OF this] Throw True t r show ?thesis by (simp add: validateOptions_eq)
      next
        case False
        with Suc.prems True t Throw show ?thesis by (simp add: validateOptions_eq)
      qed
    qed
  qed
qed

text \<open>
  On an instance whose options pass validation and whose \<^verbatim>\<open>forceRetry\<close> is false, if no
  candidate of the list needs a resolver (each is malformed or has a literal IPv4
  host), \<^verbatim>\<open>getProxy\<close> returns within one call more than the list has candidates, after at
  most as many probes as the list has candidates, no two of them through the same
  address. It returns an address whose probe succeeded, or fails; the error it fails
  with is never the exhaustion error of line 307.
\<close>

lemma getProxy_without_lookups:
  assumes "valid_options (options s)"
    and "forceRetry (fill_defaults (options s)) = JBool False"
    and "list_all needs_no_lookup (proxyList s)"
  shows "\<exists>res s' new.
           (\<forall>n. length (proxyList s) < n \<longrightarrow> getProxy n env s = (Some res, s')) \<and>
           probes s' = probes s @ new \<and>
           length new \<le> length (proxyList s) \<and>
           distinct (map via new) \<and>
           set (map via new) \<subseteq> set (proxyList s) \<and>
           (case res of Inr p \<Rightarrow> p \<in> set (map via new)
            | Inl e \<Rightarrow> \<exists>e'. e = Rethrown e' \<and> e' \<noteq> AllProxiesFailed) \<and>
           (\<forall>e\<in>set new. working e \<longleftrightarrow> res = Inr (via e))"
proof -
  have le: "length (remaining s) \<le> length (proxyList s)" by (simp add: remaining_def)
  then have "length (remaining s) < Suc (length (proxyList s))" by simp
  from getProxy_static[OF assms this, of env] obtain res s' new where
    run: "getProxy (Suc (length (proxyList s))) env s = (Some res, s')"
    and 1: "probes s' = probes s @ new"
    and 2: "length new \<le> length (remaining s)"
    and 3: "distinct (map via new)"
    and 4: "set (map via new) \<subseteq> set (remaining s)"
    and 5: "case res of Inr p \<Rightarrow> p \<in> set (map via new)
            | Inl e \<Rightarrow> \<exists>e'. e = Rethrown e' \<and> e' \<noteq> AllProxiesFailed"
    and 6: "\<forall>e\<in>set new. working e \<longleftrightarrow> res = Inr (via e)"
    by blast
  have every: "\<forall>n. length (proxyList s) < n \<longrightarrow> getProxy n env s = (Some res, s')"
  proof (intro allI impI)
    fix n
    assume "length (proxyList s) < n"
    then have n: "n = Suc (length (proxyList s)) + (n - Suc (length (proxyList s)))" by simp
    from getProxy_more_fuel[OF run, of "n - Suc (length (proxyList s))"]
    show "getProxy n env s = (Some res, s')" using n by metis
  qed
  from 2 le have b2: "length new \<le> length (proxyList s)" by simp
  from 4 have b4: "set (map via new) \<subseteq> set (proxyList s)" by (auto simp: remaining_def)
  from every 1 b2 3 b4 5 6 show ?thesis by blast
qed

subsection \<open>A run that never ends\<close>

text \<open>
  The same host name twice in the list, a resolver that knows it, requests that are
  refused and \<^verbatim>\<open>forceRetry\<close> false: the cache holds one address, the list has two
  candidates, neither raw string is in the cache, so every cycle draws the host name,
  finds its address cached, finds the cache shorter than the list, probes once more and
  calls \<^verbatim>\<open>getProxy\<close> again. No bound on the depth is enough.
\<close>

lemma convertProxy_hostA:
  assumes "dnsLookup env w ''hostA'' = (Some a, w')"
  shows "convertProxy env w (Some ''hostA:80'') = (Inr (a @ '':80''), w')"
proof -
  have sp: "splitProxy (Some ''hostA:80'') =
      Inr \<lparr>proxyAuth = None, proxyPassword = None, proxyHost = ''hostA'', proxyPort = Some ''80''\<rparr>"
    by code_simp
  have t: "proxyType (Some ''hostA:80'') = Inr Direct" by code_simp
  have h: "\<not> regex_test hasNumber ''hostA''" by code_simp
  show ?thesis using assms by (simp add: convertProxy_def falsy_def sp t h template_def)
qed

lemma same_host_twice_never_ends:
  assumes dns: "\<And>w. fst (dnsLookup env w ''hostA'') = Some ''10.0.0.1''"
    and refused: "\<And>w u p t. fst (proxiedGet env w u p t) = Rejected"
    and rnd: "\<And>w. 0 \<le> fst (randomTimes env w 2) \<and> fst (randomTimes env w 2) < 2"
  shows "proxyList s = [''hostA:80'', ''hostA:80''] \<Longrightarrow> valid_options (options s) \<Longrightarrow>
         forceRetry (fill_defaults (options s)) = JBool False \<Longrightarrow>
         cache s = [] \<or> cache s = [''10.0.0.1:80''] \<Longrightarrow>
         fst (getProxy n env s) = None"
proof (induction n arbitrary: s)
  case 0
  then show ?case by simp
next
  case (Suc n)
  let ?s0 = "validated s"
  let ?p = "''10.0.0.1:80''"
  obtain r w1 where r: "randomTimes env (world ?s0) (length (remaining ?s0)) = (r, w1)"
    by (cases "randomTimes env (world ?s0) (length (remaining ?s0))")
  have rem: "remaining ?s0 = [''hostA:80'', ''hostA:80'']"
    using Suc.prems(1,4) by (auto simp: remaining_def validated_fields)
  have len: "length (remaining ?s0) = 2" by (simp add: rem)
  from r rnd[of "world ?s0"] have r01: "0 \<le> r" "r < 2" unfolding len by simp_all
  from draw_in_range[of r "remaining ?s0"] r01 rem
  have "nat \<lfloor>r\<rfloor> < 2"
    and d: "draw r (remaining ?s0) = Some (remaining ?s0 ! nat \<lfloor>r\<rfloor>)"
    by simp_all
  then have "remaining ?s0 ! nat \<lfloor>r\<rfloor> = ''hostA:80''"
    unfolding rem by (auto simp: less_Suc_eq numeral_2_eq_2)
  with d have d': "draw r (remaining ?s0) = Some ''hostA:80''" by simp
  obtain w2 where l: "dnsLookup env w1 ''hostA'' = (Some ''10.0.0.1'', w2)"
    using dns[of w1] by (cases "dnsLookup env w1 ''hostA''") simp
  have cv: "convertProxy env w1 (draw r (remaining ?s0)) = (Inr ?p, w2)"
    using convertProxy_hostA[OF l] d' by simp
  define s2 where "s2 = ?s0\<lparr>world := w2, cache := [?p]\<rparr>"
  have m: "mark (?s0\<lparr>world := w2\<rparr>) ?p = Inr s2"
    using Suc.prems(1,4) by (auto simp: mark_def s2_def validated_fields)
  have v2: "valid_options (options s2)"
    using Suc.prems(2) by (simp add: s2_def validated_fields valid_fill)
  have lit: "literal_host ?p" by code_simp
  have nf: "\<not> falsy (Some ?p)" by (simp add: falsy_def)
  have c2: "convertProxy env (world s2) (Some ?p) = (Inr ?p, w2)"
    using convertProxy_literal[OF lit, of env w2] by (simp add: s2_def)
  obtain w3 where g: "proxiedGet env w2 (pingUrl (fill_defaults (options s2))) ?p
           (maxTimeout (fill_defaults (options s2))) = (Rejected, w3)"
    using refused[of w2 "pingUrl (fill_defaults (options s2))" ?p "maxTimeout (fill_defaults (options s2))"]
    by (cases "proxiedGet env w2 (pingUrl (fill_defaults (options s2))) ?p
           (maxTimeout (fill_defaults (options s2)))") simp
  obtain s3 where t: "testProxy env s2 (Some ?p) = (Inr False, s3)"
    and s3: "proxyList s3 = proxyList s2" "cache s3 = cache s2"
            "options s3 = fill_defaults (options s2)"
    using testProxy_probe[OF v2 nf c2 g] by (simp add: within_budget_def validated_fields)
  have tr: "getProxy_try env ?s0 = (Again, s3)"
    using getProxy_try_unfold[OF r cv] m t by simp
  have step: "getProxy (Suc n) env s = getProxy n env s3"
    using Suc.prems(2) tr by (simp add: validateOptions_eq)
  have "fst (getProxy n env s3) = None"
  proof (rule Suc.IH)
    show "proxyList s3 = [''hostA:80'', ''hostA:80'']"
      using s3(1) Suc.prems(1) by (simp add: s2_def validated_fields)
    show "valid_options (options s3)"
      using s3(3) Suc.prems(2) by (simp add: s2_def validated_fields valid_fill)
    show "forceRetry (fill_defaults (options s3)) = JBool False"
      using s3(3) Suc.prems(3) by (simp add: s2_def validated_fields fill_defaults_idem)
    show "cache s3 = [] \<or> cache s3 = [''10.0.0.1:80'']"
      using s3(2) by (simp add: s2_def)
  qed
  with step show ?case by simp
qed

section \<open>The claims\<close>

subsection \<open>The Address Normalizer\<close>

text \<open>
  Claim C6. For every candidate \<^verbatim>\<open>host:port\<close> of the direct form whose host is already a
  dotted-quad IPv4 literal (it passes the test of line 175), \<^verbatim>\<open>convertProxy\<close> is idempotent:
  it succeeds, and applied to its own output, in the world it left, it yields the same
  value. The output is in fact the candidate itself and no resolver is asked.
\<close>

theorem normalize_idempotent:
  assumes "direct_form (host @ '':'' @ port)" and "regex_test hasNumber host"
  shows "\<exists>p w'. convertProxy env w (Some (host @ '':'' @ port)) = (Inr p, w') \<and>
                convertProxy env w' (Some p) = (Inr p, w') \<and>
                p = host @ '':'' @ port \<and> w' = w"
proof -
  from assms(1) have "direct_form (host @ CHR '':'' # port)" by simp
  from direct_form_parts[OF this] assms(2) have "literal_host (host @ CHR '':'' # port)"
    by (simp add: literal_host_def)
  from convertProxy_literal[OF this, of env w] show ?thesis by simp
qed

theorem normalize_idempotent_witness:
  "direct_form (''10.0.0.1'' @ '':'' @ ''8080'') \<and> regex_test hasNumber ''10.0.0.1'' \<and>
   (\<exists>p w'. convertProxy busy_env 0 (Some (''10.0.0.1'' @ '':'' @ ''8080'')) = (Inr p, w') \<and>
            convertProxy busy_env w' (Some p) = (Inr p, w') \<and>
            p = ''10.0.0.1'' @ '':'' @ ''8080'' \<and> w' = 0) \<and>
   convertProxy busy_env 0 (Some ''10.0.0.1:8080'') = (Inr ''10.0.0.1:8080'', 0)"
proof -
  have a: "direct_form (''10.0.0.1'' @ '':'' @ ''8080'')"
    unfolding directPattern_iff[symmetric] by code_simp
  have b: "regex_test hasNumber ''10.0.0.1''" by code_simp
  note t = normalize_idempotent[OF a b, of busy_env 0]
  from t have c: "convertProxy busy_env 0 (Some ''10.0.0.1:8080'') = (Inr ''10.0.0.1:8080'', 0)"
    by simp
  from a b t c show ?thesis by (intro conjI)
qed

text \<open>
  Claim C7, as stated, fails at the empty string: it has neither form, yet \<^verbatim>\<open>proxyType\<close>
  does not answer \<^verbatim>\<open>invalid\<close> for it and \<^verbatim>\<open>convertProxy\<close> does not fail with the format
  error; both throw \<^verbatim>\<open>"Proxy cannot be undefined"\<close>, by the guard \<^verbatim>\<open>if (!proxy)\<close>.
\<close>

theorem classify_empty_counterexample:
  "\<not> direct_form [] \<and> \<not> auth_form [] \<and> proxyType (Some []) = Inl ProxyUndefined \<and>
   proxyType (Some []) \<noteq> Inr Invalid \<and>
   convertProxy busy_env 0 (Some []) = (Inl ProxyUndefined, 0)"
  by (simp add: direct_form_def auth_form_def proxyType_def falsy_def convertProxy_def)

text \<open>
  Claim C7, amended. For every non-empty string that has neither the direct form
  (word characters and dots for the host, digits for the port, end to end) nor the
  auth form (\<^verbatim>\<open>user:pass@host:port\<close>, user and password free of \<^verbatim>\<open>:\<close> and \<^verbatim>\<open>@\<close>), \<^verbatim>\<open>proxyType\<close>
  returns \<^verbatim>\<open>invalid\<close> and \<^verbatim>\<open>convertProxy\<close> fails with the format error that names the
  string, before it asks any resolver.
\<close>

theorem malformed_is_invalid:
  assumes "s \<noteq> []" and "\<not> direct_form s" and "\<not> auth_form s"
  shows "proxyType (Some s) = Inr Invalid \<and>
         convertProxy env w (Some s) = (Inl (InvalidFormat s), w)"
proof -
  from assms have t: "proxyType (Some s) = Inr Invalid"
    using proxyType_cases[of s] by (simp add: directPattern_iff authPattern_iff)
  then have "splitProxy (Some s) = Inl (InvalidFormat s)"
    by (simp add: splitProxy_def template_def)
  with t assms(1) show ?thesis by (simp add: convertProxy_def falsy_def)
qed

theorem malformed_is_invalid_witness:
  "''a:b:c'' \<noteq> [] \<and> \<not> direct_form ''a:b:c'' \<and> \<not> auth_form ''a:b:c'' \<and>
   proxyType (Some ''a:b:c'') = Inr Invalid \<and>
   convertProxy busy_env 0 (Some ''a:b:c'') = (Inl (InvalidFormat ''a:b:c''), 0)"
proof -
  have d: "\<not> direct_form ''a:b:c''" unfolding directPattern_iff[symmetric] by code_simp
  have a: "\<not> auth_form ''a:b:c''" unfolding authPattern_iff[symmetric] by code_simp
  have n: "''a:b:c'' \<noteq> []" by simp
  from malformed_is_invalid[OF n d a, of busy_env 0] d a show ?thesis by simp
qed

subsection \<open>The State Holder\<close>

text \<open>
  Claim C9, as stated, fails for a field of the right \<^verbatim>\<open>typeof\<close> and the wrong semantic
  type. The options are specified as a timeout in milliseconds greater than 0 and a
  reference URL; \<^verbatim>\<open>validateOptions\<close> accepts a timeout of -5 and a reference URL that is
  no URL: it returns true, leaves the options as they are, and \<^verbatim>\<open>testProxy\<close> goes on to
  issue its request with them.
\<close>

theorem lax_validation_counterexample:
  "maxTimeout (options lax_configured) = JNum (- 5) \<and>
   pingUrl (options lax_configured) = JStr ''not a url'' \<and>
   validateOptions lax_configured = (Inr True, lax_configured) \<and>
   fst (testProxy busy_env lax_configured (Some ''10.0.0.1:80'')) = Inr False \<and>
   map via (probes (snd (testProxy busy_env lax_configured (Some ''10.0.0.1:80'')))) =
     [''10.0.0.1:80'']"
  by code_simp

text \<open>
  Claim C9, amended. \<^verbatim>\<open>validateOptions\<close> gives every missing (undefined) option field its
  documented default (\<^verbatim>\<open>verbose\<close> false, \<^verbatim>\<open>verboseIdentifier\<close> \<^verbatim>\<open>"[proxyChooser]"\<close>,
  \<^verbatim>\<open>maxTimeout\<close> 1000, \<^verbatim>\<open>pingUrl\<close> \<^verbatim>\<open>"http://myexternalip.com/raw"\<close>, \<^verbatim>\<open>forceRetry\<close> false) and
  leaves every other field as it is; it throws \<^verbatim>\<open>"Invalid options"\<close> exactly when some
  field that is present has another \<^verbatim>\<open>typeof\<close> than the documented one (boolean for
  \<^verbatim>\<open>verbose\<close> and \<^verbatim>\<open>forceRetry\<close>, string for \<^verbatim>\<open>verboseIdentifier\<close> and \<^verbatim>\<open>pingUrl\<close>, number for
  \<^verbatim>\<open>maxTimeout\<close>), and returns true otherwise: the values are not inspected. The error
  is eager: \<^verbatim>\<open>addProxies\<close>, \<^verbatim>\<open>getPing\<close>, \<^verbatim>\<open>testProxy\<close> and \<^verbatim>\<open>getProxy\<close> then fail with it in
  the state that validation left, in which the world is untouched and no probe was
  issued, whatever the network would have answered.
\<close>

theorem validateOptions_defaults_and_errors:
  assumes "validateOptions s = (r, s')"
  shows "verbose (options s') =
           (if verbose (options s) = JUndefined then JBool False else verbose (options s)) \<and>
         verboseIdentifier (options s') =
           (if verboseIdentifier (options s) = JUndefined then JStr ''[proxyChooser]''
            else verboseIdentifier (options s)) \<and>
         maxTimeout (options s') =
           (if maxTimeout (options s) = JUndefined then JNum 1000 else maxTimeout (options s)) \<and>
         pingUrl (options s') =
           (if pingUrl (options s) = JUndefined then JStr ''http://myexternalip.com/raw''
            else pingUrl (options s)) \<and>
         forceRetry (options s') =
           (if forceRetry (options s) = JUndefined then JBool False else forceRetry (options s)) \<and>
         r = (if valid_options (options s) then Inr True else Inl InvalidOptions) \<and>
         proxyList s' = proxyList s \<and> cache s' = cache s \<and> world s' = world s \<and>
         probes s' = probes s \<and>
         (\<not> valid_options (options s) \<longrightarrow>
            addProxies s a = (Inl InvalidOptions, s') \<and>
            getPing env s = (Inl InvalidOptions, s') \<and>
            testProxy env s p = (Inl InvalidOptions, s') \<and>
            getProxy (Suc n) env s = (Some (Inl InvalidOptions), s'))"
proof -
  from assms have r: "r = (if valid_options (options s) then Inr True else Inl InvalidOptions)"
    and s': "s' = validated s"
    by (simp_all add: validateOptions_eq)
  show ?thesis
    unfolding s' r
    by (simp add: validated_fields fill_defaults_fields addProxies_eq getPing_invalid
        testProxy_invalid getProxy_invalid del: getProxy.simps)
qed

theorem validateOptions_defaults_and_errors_witness:
  "validateOptions ill_configured = (Inl InvalidOptions, validated ill_configured) \<and>
   verbose (options (validated ill_configured)) = JBool False \<and>
   verboseIdentifier (options (validated ill_configured)) = JStr ''[proxyChooser]'' \<and>
   maxTimeout (options (validated ill_configured)) = JStr ''1000'' \<and>
   pingUrl (options (validated ill_configured)) = JStr ''http://myexternalip.com/raw'' \<and>
   forceRetry (options (validated ill_configured)) = JBool False \<and>
   \<not> valid_options (options ill_configured) \<and>
   world (validated ill_configured) = 0 \<and> probes (validated ill_configured) = [] \<and>
   addProxies ill_configured (Array [''10.0.0.2:80'']) = (Inl InvalidOptions, validated ill_configured) \<and>
   getPing busy_env ill_configured = (Inl InvalidOptions, validated ill_configured) \<and>
   testProxy busy_env ill_configured (Some ''10.0.0.1:80'') =
     (Inl InvalidOptions, validated ill_configured) \<and>
   getProxy (Suc 3) busy_env ill_configured = (Some (Inl InvalidOptions), validated ill_configured)"
proof -
  have v: "validateOptions ill_configured = (Inl InvalidOptions, validated ill_configured)"
    by (simp add: validateOptions_eq valid_options_def well_typed_def ill_configured_def construct_def)
  have n: "\<not> valid_options (options ill_configured)"
    by (simp add: valid_options_def well_typed_def ill_configured_def construct_def)
  have f: "verbose (options ill_configured) = JUndefined"
    "verboseIdentifier (options ill_configured) = JUndefined"
    "maxTimeout (options ill_configured) = JStr ''1000''"
    "pingUrl (options ill_configured) = JUndefined"
    "forceRetry (options ill_configured) = JUndefined"
    "world ill_configured = 0" "probes ill_configured = []"
    by (simp_all add: ill_configured_def construct_def)
  from validateOptions_defaults_and_errors[OF v, of "Array [''10.0.0.2:80'']" busy_env
      "Some ''10.0.0.1:80''" 3] v n f
  show ?thesis by simp
qed

text \<open>
  Claim C8, as stated, fails on an instance whose options do not pass validation:
  \<^verbatim>\<open>addProxies\<close> validates first, so it throws \<^verbatim>\<open>"Invalid options"\<close> where the claim has it
  return false (a missing argument) or append and return true (a non-empty array).
\<close>

theorem addProxies_invalid_options_counterexample:
  "addProxies ill_configured Missing = (Inl InvalidOptions, validated ill_configured) \<and>
   fst (addProxies ill_configured Missing) \<noteq> Inr False \<and>
   fst (addProxies ill_configured (Array [''10.0.0.2:80''])) \<noteq> Inr True \<and>
   proxyList (snd (addProxies ill_configured (Array [''10.0.0.2:80'']))) = [''10.0.0.1:80'']"
  by (simp add: addProxies_eq valid_options_def well_typed_def ill_configured_def construct_def
      validated_fields)

text \<open>
  Claim C8, amended. On an instance whose options pass validation, \<^verbatim>\<open>addProxies\<close>
  returns false and leaves the candidate list unchanged whenever its argument is
  missing, not an array, or empty; otherwise it appends the given candidates to the
  list, keeping the existing entries, and returns true.
\<close>

theorem addProxies_appends:
  assumes "valid_options (options s)"
  shows "fst (addProxies s Missing) = Inr False \<and>
         proxyList (snd (addProxies s Missing)) = proxyList s \<and>
         fst (addProxies s NotArray) = Inr False \<and>
         proxyList (snd (addProxies s NotArray)) = proxyList s \<and>
         fst (addProxies s (Array [])) = Inr False \<and>
         proxyList (snd (addProxies s (Array []))) = proxyList s \<and>
         (ps \<noteq> [] \<longrightarrow>
            fst (addProxies s (Array ps)) = Inr True \<and>
            proxyList (snd (addProxies s (Array ps))) = proxyList s @ ps)"
  using assms by (simp add: addProxies_eq validated_fields)

theorem addProxies_appends_witness:
  "valid_options (options two_literals) \<and>
   fst (addProxies two_literals Missing) = Inr False \<and>
   proxyList (snd (addProxies two_literals Missing)) = [''10.0.0.1:80'', ''10.0.0.2:80''] \<and>
   fst (addProxies two_literals (Array [])) = Inr False \<and>
   proxyList (snd (addProxies two_literals (Array []))) = [''10.0.0.1:80'', ''10.0.0.2:80''] \<and>
   [''hostA:80''] \<noteq> [] \<and>
   fst (addProxies two_literals (Array [''hostA:80''])) = Inr True \<and>
   proxyList (snd (addProxies two_literals (Array [''hostA:80'']))) =
     [''10.0.0.1:80'', ''10.0.0.2:80'', ''hostA:80'']"
proof -
  have v: "valid_options (options two_literals)"
    by (simp add: valid_options_def well_typed_def two_literals_def construct_def
        constructor_defaults_def)
  have l: "proxyList two_literals = [''10.0.0.1:80'', ''10.0.0.2:80'']"
    by (simp add: two_literals_def construct_def)
  from addProxies_appends[OF v, of "[''hostA:80'']"] v l show ?thesis by simp
qed

text \<open>
  Claim C10. For every candidate, defined or not, \<^verbatim>\<open>testProxy\<close> leaves the candidate list
  and the tested cache as they were, whether it returns true, returns false or throws.
  So do \<^verbatim>\<open>getPing\<close> and \<^verbatim>\<open>validateOptions\<close>; \<^verbatim>\<open>getProxy\<close> leaves the candidate list,
  \<^verbatim>\<open>addProxies\<close> and \<^verbatim>\<open>resetList\<close> leave the cache, and \<^verbatim>\<open>resetCache\<close> leaves the list and
  empties the cache: no operation but \<^verbatim>\<open>getProxy\<close> adds to the cache.
\<close>

theorem frame_of_the_operations:
  "proxyList (snd (testProxy env s a)) = proxyList s \<and>
   cache (snd (testProxy env s a)) = cache s \<and>
   proxyList (snd (getPing env s)) = proxyList s \<and>
   cache (snd (getPing env s)) = cache s \<and>
   proxyList (snd (validateOptions s)) = proxyList s \<and>
   cache (snd (validateOptions s)) = cache s \<and>
   proxyList (snd (getProxy n env s)) = proxyList s \<and>
   cache (snd (addProxies s ps)) = cache s \<and>
   cache (snd (resetList s)) = cache s \<and>
   proxyList (snd (resetCache s)) = proxyList s \<and>
   cache (snd (resetCache s)) = []"
proof -
  obtain r s' where t: "testProxy env s a = (r, s')" by (cases "testProxy env s a")
  obtain res s'' where g: "getProxy n env s = (res, s'')" by (cases "getProxy n env s")
  from testProxy_frame[OF t] t getProxy_frame[OF g] g getPing_frame[of env s]
  show ?thesis
    by (simp add: validateOptions_eq validated_fields addProxies_eq resetList_def resetCache_def
        split: proxies_arg.splits)
qed

theorem frame_of_the_operations_witness:
  "cache (snd (getProxy 1 quick_env two_literals)) = [''10.0.0.1:80''] \<and>
   proxyList (snd (testProxy quick_env (snd (getProxy 1 quick_env two_literals)) (Some ''hostB:80'')))
     = [''10.0.0.1:80'', ''10.0.0.2:80''] \<and>
   cache (snd (testProxy quick_env (snd (getProxy 1 quick_env two_literals)) (Some ''hostB:80'')))
     = [''10.0.0.1:80''] \<and>
   fst (testProxy quick_env (snd (getProxy 1 quick_env two_literals)) (Some ''hostB:80'')) = Inr True \<and>
   cache (snd (testProxy quick_env (snd (getProxy 1 quick_env two_literals)) None)) = [''10.0.0.1:80''] \<and>
   fst (testProxy quick_env (snd (getProxy 1 quick_env two_literals)) None) = Inl ProxyUndefined"
proof -
  have c: "cache (snd (getProxy 1 quick_env two_literals)) = [''10.0.0.1:80'']" by code_simp
  have l: "proxyList (snd (getProxy 1 quick_env two_literals)) = [''10.0.0.1:80'', ''10.0.0.2:80'']"
    by code_simp
  have r: "fst (testProxy quick_env (snd (getProxy 1 quick_env two_literals)) (Some ''hostB:80'')) = Inr True"
    by code_simp
  have u: "fst (testProxy quick_env (snd (getProxy 1 quick_env two_literals)) None) = Inl ProxyUndefined"
    by code_simp
  from frame_of_the_operations[of quick_env "snd (getProxy 1 quick_env two_literals)" "Some ''hostB:80''"]
       frame_of_the_operations[of quick_env "snd (getProxy 1 quick_env two_literals)" None]
       c l r u
  show ?thesis by simp
qed

subsection \<open>The Connectivity Prober\<close>

text \<open>
  Claim C4, as stated, fails on an instance whose options do not pass validation: for a
  defined, well-formed candidate with a literal host \<^verbatim>\<open>testProxy\<close> throws
  \<^verbatim>\<open>"Invalid options"\<close>, a fatal error that is not the one of an undefined address.
\<close>

theorem testProxy_invalid_options_counterexample:
  "convertProxy busy_env (world ill_configured) (Some ''10.0.0.1:80'') = (Inr ''10.0.0.1:80'', 0) \<and>
   testProxy busy_env ill_configured (Some ''10.0.0.1:80'') =
     (Inl InvalidOptions, validated ill_configured)"
proof -
  have "\<not> valid_options (options ill_configured)"
    by (simp add: valid_options_def well_typed_def ill_configured_def construct_def)
  then have "testProxy busy_env ill_configured (Some ''10.0.0.1:80'') =
     (Inl InvalidOptions, validated ill_configured)"
    by (rule testProxy_invalid)
  moreover have "convertProxy busy_env (world ill_configured) (Some ''10.0.0.1:80'') =
     (Inr ''10.0.0.1:80'', 0)"
    by code_simp
  ultimately show ?thesis by simp
qed

text \<open>
  Claim C4, amended. On an instance whose options pass validation, for every defined
  candidate that \<^verbatim>\<open>convertProxy\<close> normalizes (well-formed, host resolved), \<^verbatim>\<open>testProxy\<close> does
  not throw: it returns a boolean, and every failure of the request (the client or an
  agent throws, the outer timeout fires, or the measured duration exceeds
  \<^verbatim>\<open>maxTimeout\<close>) gives false. The fatal errors are precondition violations: an
  undefined or empty address, and options that do not pass validation.
\<close>

theorem testProxy_never_throws_for_network_failure:
  assumes "valid_options (options s)"
    and "convertProxy env (world s) (Some c) = (Inr p, w1)"
    and "proxiedGet env w1 (pingUrl (fill_defaults (options s))) p
           (maxTimeout (fill_defaults (options s))) = (r, w2)"
  shows "fst (testProxy env s (Some c)) =
           Inr (within_budget r (maxTimeout (fill_defaults (options s)))) \<and>
         (r = Rejected \<or> r = TimedOut \<or>
          (\<exists>d. r = Completed d \<and> exceeds d (maxTimeout (fill_defaults (options s))))
            \<longrightarrow> fst (testProxy env s (Some c)) = Inr False) \<and>
         (falsy a \<longrightarrow> fst (testProxy env s a) = Inl ProxyUndefined) \<and>
         (\<not> valid_options (options t) \<longrightarrow> fst (testProxy env t a) = Inl InvalidOptions)"
proof -
  have nf: "\<not> falsy (Some c)" using assms(2) by (rule convertProxy_not_falsy)
  have 1: "fst (testProxy env s (Some c)) =
           Inr (within_budget r (maxTimeout (fill_defaults (options s))))"
    using testProxy_probe[OF assms(1) nf assms(2,3)] by simp
  have 2: "r = Rejected \<or> r = TimedOut \<or>
          (\<exists>d. r = Completed d \<and> exceeds d (maxTimeout (fill_defaults (options s))))
            \<longrightarrow> fst (testProxy env s (Some c)) = Inr False"
    unfolding 1 by (auto simp: within_budget_def)
  have 3: "falsy a \<longrightarrow> fst (testProxy env s a) = Inl ProxyUndefined"
    using testProxy_falsy[OF assms(1), of a env] by simp
  have 4: "\<not> valid_options (options t) \<longrightarrow> fst (testProxy env t a) = Inl InvalidOptions"
    using testProxy_invalid[of t env a] by simp
  from 1 2 3 4 show ?thesis by blast
qed

theorem testProxy_never_throws_for_network_failure_witness:
  "valid_options (options two_literals) \<and>
   convertProxy busy_env (world two_literals) (Some ''u:p@10.0.0.1:80'') = (Inr ''u:p@10.0.0.1:80'', 0) \<and>
   proxiedGet busy_env 0 (pingUrl (fill_defaults (options two_literals))) ''u:p@10.0.0.1:80''
           (maxTimeout (fill_defaults (options two_literals))) = (Rejected, 1) \<and>
   fst (testProxy busy_env two_literals (Some ''u:p@10.0.0.1:80'')) = Inr False \<and>
   falsy None \<and> fst (testProxy busy_env two_literals None) = Inl ProxyUndefined \<and>
   \<not> valid_options (options ill_configured) \<and>
   fst (testProxy busy_env ill_configured None) = Inl InvalidOptions"
proof -
  have v: "valid_options (options two_literals)"
    by (simp add: valid_options_def well_typed_def two_literals_def construct_def
        constructor_defaults_def)
  have c: "convertProxy busy_env (world two_literals) (Some ''u:p@10.0.0.1:80'') =
      (Inr ''u:p@10.0.0.1:80'', 0)"
    by code_simp
  have g: "proxiedGet busy_env 0 (pingUrl (fill_defaults (options two_literals))) ''u:p@10.0.0.1:80''
           (maxTimeout (fill_defaults (options two_literals))) = (Rejected, 1)"
    by (simp add: busy_env_def)
  have n: "\<not> valid_options (options ill_configured)"
    by (simp add: valid_options_def well_typed_def ill_configured_def construct_def)
  have f: "falsy None" by (simp add: falsy_def)
  from testProxy_never_throws_for_network_failure[OF v c g, of None ill_configured] v c g n f
  show ?thesis by (simp add: within_budget_def)
qed

subsection \<open>The Selection Engine\<close>

text \<open>
  Claim C3, on the code. Two candidates with literal hosts, every request refused.
  After two cycles both are in the cache and the remaining list of line 299 is empty:
  the candidates are exhausted. The third cycle draws \<^verbatim>\<open>undefined\<close> from the empty list
  and \<^verbatim>\<open>convertProxy\<close> throws \<^verbatim>\<open>"Proxy cannot be undefined"\<close> before line 307 is reached.
  With \<^verbatim>\<open>forceRetry\<close> false that error, not the exhaustion error, reaches the caller.
  With \<^verbatim>\<open>forceRetry\<close> true the cache is cleared and the fourth cycle draws from the whole
  list again. The exhaustion error is raised only when a drawn candidate normalizes to
  a cached address, as a host name does, and then it does reach the caller.
\<close>

theorem exhaustion_propagates_as_undefined:
  "forceRetry (options two_literals) = JBool False \<and>
   cache (snd (getProxy 2 stubborn_env two_literals)) = proxyList two_literals \<and>
   remaining (snd (getProxy 2 stubborn_env two_literals)) = [] \<and>
   fst (getProxy_try stubborn_env (snd (getProxy 2 stubborn_env two_literals))) =
     Throw ProxyUndefined \<and>
   fst (getProxy 3 stubborn_env two_literals) = Some (Inl (Rethrown ProxyUndefined)) \<and>
   forceRetry (options two_literals_retrying) = JBool True \<and>
   cache (snd (getProxy 2 stubborn_env two_literals_retrying)) =
     proxyList two_literals_retrying \<and>
   fst (getProxy_try stubborn_env (snd (getProxy 2 stubborn_env two_literals_retrying))) =
     Throw ProxyUndefined \<and>
   cache (snd (getProxy 3 stubborn_env two_literals_retrying)) = [] \<and>
   remaining (snd (getProxy 3 stubborn_env two_literals_retrying)) =
     proxyList two_literals_retrying \<and>
   map via (probes (snd (getProxy 4 stubborn_env two_literals_retrying))) =
     [''10.0.0.1:80'', ''10.0.0.2:80'', ''10.0.0.2:80''] \<and>
   fst (getProxy_try stubborn_env (exhausted_host False)) = Throw AllProxiesFailed \<and>
   fst (getProxy 1 stubborn_env (exhausted_host False)) = Some (Inl (Rethrown AllProxiesFailed))"
  by code_simp

text \<open>
  Claim C5. In every cycle of \<^verbatim>\<open>getProxy\<close> a probe is asked for the normalized address of
  the drawn candidate, and when the request is issued that address is in the cache,
  which is the cache the cycle ends with; the same holds of every probe of a whole
  run. If the normalized address is already in the cache and the cache is as long as
  the candidate list, the cycle throws the exhaustion error and issues no probe.
\<close>

theorem probe_follows_marking:
  assumes "randomTimes env (world s) (length (remaining s)) = (x, w1)"
    and "convertProxy env w1 (draw x (remaining s)) = (cv, w2)"
  shows "(getProxy_try env s = (st, s') \<longrightarrow>
           (\<exists>new. probes s' = probes s @ new \<and> length new \<le> 1 \<and>
              (\<forall>e\<in>set new. cv = Inr (asked e) \<and> asked e \<in> set (cached e) \<and>
                            cached e = cache s'))) \<and>
         (getProxy n env s = (res, s'') \<longrightarrow>
           (\<exists>new. probes s'' = probes s @ new \<and> (\<forall>e\<in>set new. asked e \<in> set (cached e)))) \<and>
         (cv = Inr p \<and> p \<in> set (cache s) \<and> length (cache s) = length (proxyList s) \<longrightarrow>
            getProxy_try env s = (Throw AllProxiesFailed, s\<lparr>world := w2\<rparr>))"
proof (intro conjI impI)
  assume t: "getProxy_try env s = (st, s')"
  from getProxy_try_frame[OF t] obtain new where
    new: "probes s' = probes s @ new" "length new \<le> 1"
      "\<forall>e\<in>set new. asked e \<in> set (cached e) \<and> cached e = cache s'"
    by blast
  have "\<forall>e\<in>set new. cv = Inr (asked e)"
    using getProxy_try_asks_normalized[OF assms t new(1)] by blast
  with new show "\<exists>new. probes s' = probes s @ new \<and> length new \<le> 1 \<and>
              (\<forall>e\<in>set new. cv = Inr (asked e) \<and> asked e \<in> set (cached e) \<and>
                            cached e = cache s')"
    by blast
next
  assume "getProxy n env s = (res, s'')"
  from getProxy_frame[OF this]
  show "\<exists>new. probes s'' = probes s @ new \<and> (\<forall>e\<in>set new. asked e \<in> set (cached e))"
    by simp
next
  assume a: "cv = Inr p \<and> p \<in> set (cache s) \<and> length (cache s) = length (proxyList s)"
  then have "mark (s\<lparr>world := w2\<rparr>) p = Inl AllProxiesFailed" by (simp add: mark_def)
  with getProxy_try_unfold[OF assms] a
  show "getProxy_try env s = (Throw AllProxiesFailed, s\<lparr>world := w2\<rparr>)" by simp
qed

theorem probe_follows_marking_witness:
  "randomTimes stubborn_env (world two_hosts) (length (remaining two_hosts)) = (0, 1) \<and>
   convertProxy stubborn_env 1 (draw 0 (remaining two_hosts)) = (Inr ''10.0.0.1:80'', 1) \<and>
   probes (snd (getProxy_try stubborn_env two_hosts)) =
     [\<lparr>asked = ''10.0.0.1:80'', via = ''10.0.0.1:80'', cached = [''10.0.0.1:80''],
       working = False\<rparr>] \<and>
   (\<exists>new. probes (snd (getProxy_try stubborn_env two_hosts)) = probes two_hosts @ new \<and>
      length new \<le> 1 \<and>
      (\<forall>e\<in>set new. Inr ''10.0.0.1:80'' = Inr (asked e) \<and> asked e \<in> set (cached e) \<and>
         cached e = cache (snd (getProxy_try stubborn_env two_hosts)))) \<and>
   (\<exists>new. probes (snd (getProxy 5 stubborn_env two_hosts)) = probes two_hosts @ new \<and>
      (\<forall>e\<in>set new. asked e \<in> set (cached e))) \<and>
   randomTimes stubborn_env (world (exhausted_host False))
     (length (remaining (exhausted_host False))) = (0, 1) \<and>
   convertProxy stubborn_env 1 (draw 0 (remaining (exhausted_host False))) =
     (Inr ''10.0.0.1:80'', 1) \<and>
   ''10.0.0.1:80'' \<in> set (cache (exhausted_host False)) \<and>
   length (cache (exhausted_host False)) = length (proxyList (exhausted_host False)) \<and>
   getProxy_try stubborn_env (exhausted_host False) =
     (Throw AllProxiesFailed, (exhausted_host False)\<lparr>world := 1\<rparr>)"
proof -
  have r1: "randomTimes stubborn_env (world two_hosts) (length (remaining two_hosts)) = (0, 1)" by code_simp
  have c1: "convertProxy stubborn_env 1 (draw 0 (remaining two_hosts)) = (Inr ''10.0.0.1:80'', 1)"
    by code_simp
  have p1: "probes (snd (getProxy_try stubborn_env two_hosts)) =
     [\<lparr>asked = ''10.0.0.1:80'', via = ''10.0.0.1:80'', cached = [''10.0.0.1:80''],
       working = False\<rparr>]"
    by code_simp
  have r2: "randomTimes stubborn_env (world (exhausted_host False))
     (length (remaining (exhausted_host False))) = (0, 1)" by code_simp
  have c2: "convertProxy stubborn_env 1 (draw 0 (remaining (exhausted_host False))) =
     (Inr ''10.0.0.1:80'', 1)"
    by code_simp
  have m2: "''10.0.0.1:80'' \<in> set (cache (exhausted_host False))" by code_simp
  have l2: "length (cache (exhausted_host False)) = length (proxyList (exhausted_host False))"
    by code_simp
  note a = probe_follows_marking[OF r1 c1,
      of "fst (getProxy_try stubborn_env two_hosts)" "snd (getProxy_try stubborn_env two_hosts)"
         5 "fst (getProxy 5 stubborn_env two_hosts)" "snd (getProxy 5 stubborn_env two_hosts)"]
  note b = probe_follows_marking[OF r2 c2, of _ _ _ _ _ "''10.0.0.1:80''"]
  from a have a1: "\<exists>new. probes (snd (getProxy_try stubborn_env two_hosts)) = probes two_hosts @ new \<and>
      length new \<le> 1 \<and>
      (\<forall>e\<in>set new. Inr ''10.0.0.1:80'' = Inr (asked e) \<and> asked e \<in> set (cached e) \<and>
         cached e = cache (snd (getProxy_try stubborn_env two_hosts)))"
    by simp
  from a have a2: "\<exists>new. probes (snd (getProxy 5 stubborn_env two_hosts)) = probes two_hosts @ new \<and>
      (\<forall>e\<in>set new. asked e \<in> set (cached e))"
    by (simp del: getProxy.simps)
  from b m2 l2 have b1: "getProxy_try stubborn_env (exhausted_host False) =
     (Throw AllProxiesFailed, (exhausted_host False)\<lparr>world := 1\<rparr>)"
    by simp
  from r1 c1 p1 a1 a2 r2 c2 m2 l2 b1 show ?thesis by (intro conjI)
qed

text \<open>
  Claim C2, on the code. Two host names, every request refused, \<^verbatim>\<open>Math.random()\<close>
  returning 0. The first cycle of \<^verbatim>\<open>getProxy\<close> tests \<^verbatim>\<open>hostA:80\<close> and caches its normalized
  form \<^verbatim>\<open>10.0.0.1:80\<close>. In the second cycle the remaining list of line 299 still holds
  \<^verbatim>\<open>hostA:80\<close>, because the filter compares the raw strings with the normalized entries
  of the cache; it is drawn again and, the cache being shorter than the list, probed
  again.
\<close>

theorem retested_candidate:
  "cache (snd (getProxy 1 stubborn_env two_hosts)) = [''10.0.0.1:80''] \<and>
   fst (convertProxy stubborn_env 2 (Some ''hostA:80'')) = Inr ''10.0.0.1:80'' \<and>
   remaining (snd (getProxy 1 stubborn_env two_hosts)) = [''hostA:80'', ''hostB:80''] \<and>
   randomTimes stubborn_env (world (snd (getProxy 1 stubborn_env two_hosts)))
     (length (remaining (snd (getProxy 1 stubborn_env two_hosts)))) = (0, 2) \<and>
   draw 0 (remaining (snd (getProxy 1 stubborn_env two_hosts))) = Some ''hostA:80'' \<and>
   map via (probes (snd (getProxy 2 stubborn_env two_hosts))) = [''10.0.0.1:80'', ''10.0.0.1:80'']"
  by code_simp

text \<open>
  Claim C1, on the code, with \<^verbatim>\<open>forceRetry\<close> false and every request refused. With two
  host names, a run in which \<^verbatim>\<open>Math.random()\<close> returns 0, 0, 0 and then 0.5 is not over
  after four cycles and has issued four probes for two candidates, three of them
  through the same address, when it fails with the exhaustion error. With two literal
  hosts each candidate is probed once, and the run then fails with
  \<^verbatim>\<open>"Proxy cannot be undefined"\<close>, not with the exhaustion error.
\<close>

theorem bound_exceeded_and_exhaustion_unreported:
  "forceRetry (options two_hosts) = JBool False \<and> length (proxyList two_hosts) = 2 \<and>
   fst (getProxy 4 stubborn_env two_hosts) = None \<and>
   fst (getProxy 5 stubborn_env two_hosts) = Some (Inl (Rethrown AllProxiesFailed)) \<and>
   map via (probes (snd (getProxy 5 stubborn_env two_hosts))) =
     [''10.0.0.1:80'', ''10.0.0.1:80'', ''10.0.0.1:80'', ''10.0.0.2:80''] \<and>
   forceRetry (options two_literals) = JBool False \<and> length (proxyList two_literals) = 2 \<and>
   fst (getProxy 3 busy_env two_literals) = Some (Inl (Rethrown ProxyUndefined)) \<and>
   map via (probes (snd (getProxy 3 busy_env two_literals))) =
     [''10.0.0.1:80'', ''10.0.0.2:80''] \<and>
   map working (probes (snd (getProxy 3 busy_env two_literals))) = [False, False]"
  by code_simp

end
